theory Spec2Isabelle
  imports Main
begin

section \<open>Sitemap Scan: the locator, the tree walker and the command line\<close>

text \<open>
  The program (\<^verbatim>\<open>src/cli.js\<close>; the older copy of the script among the unnamed sources has
  the same three functions under a \<^verbatim>\<open>main\<close>) talks to the network through \<^verbatim>\<open>axios\<close>,
  parses XML with \<^verbatim>\<open>xml2js\<close> and normalises its input with the platform's \<^verbatim>\<open>URL\<close> class.
  These three are not code of the repository: they are the parameters of the model,
  collected in the record \<open>world\<close>. During one run the outcome of a request is a function
  of its URL, and the outcome of parsing a function of the body.

  Each function of the source becomes a function from the world and its arguments to the
  settled value of its promise (\<open>Inl\<close> for a rejection) together with the list of the
  effects it performed (requests sent, lines printed), in the order they happen. A call
  that never settles has the value \<open>None\<close>.
\<close>

subsection \<open>Values, errors and effects\<close>

text \<open>
  What can be thrown: \<open>InvalidURL\<close> is the \<^verbatim>\<open>TypeError\<close> of \<^verbatim>\<open>new URL(...)\<close>,
  \<open>RequestFailed\<close> a rejected \<^verbatim>\<open>axios\<close> request (transport error or HTTP error status),
  \<open>XmlParseError\<close> a rejected \<^verbatim>\<open>parseStringPromise\<close>, and \<open>TypeError\<close> a property read
  on \<^verbatim>\<open>null\<close> or \<^verbatim>\<open>undefined\<close>.
\<close>

datatype error = InvalidURL | RequestFailed | XmlParseError | TypeError

text \<open>The lines the program prints, one constructor per template of the source.\<close>

datatype message =
    Searching string
  | FoundMain string
  | CouldNotFind string
  | Parsing string
  | ErrorOccurred string error
  | ProvideDomainAndArgument
  | Usage
  | MainHeader
  | FoundSubs nat
  | NoSubs
  | FoundUrls nat
  | NoUrls
  | Line string
  | InvalidArgument string
  | Uncaught error

datatype event =
    HEAD string
  | GET string
  | ConsoleLog message
  | ConsoleError message

text \<open>
  The result of \<^verbatim>\<open>parseStringPromise\<close> as the walker reads it. With the parser's default
  options the result is \<^verbatim>\<open>null\<close> for an empty body and otherwise an object with one
  key, the name of the root element. Under the root, the child elements are grouped by
  name into arrays; a root with text only, or with nothing in it, has no such array. An
  entry of an array is a \<^verbatim>\<open>sitemap\<close> or \<^verbatim>\<open>url\<close> element: \<open>loc\<close> is the value of
  \<^verbatim>\<open>entry.loc[0]\<close>, the text of its first \<^verbatim>\<open>loc\<close> child, and \<open>None\<close> when \<^verbatim>\<open>entry.loc\<close>
  is \<^verbatim>\<open>undefined\<close> (the element has no \<^verbatim>\<open>loc\<close> child), where the read of index 0 throws.
\<close>

datatype entry = Entry (loc: "string option")

datatype parsed = Null | Root string "string \<Rightarrow> entry list option"

text \<open>
  The world: \<open>url_origin s\<close> is \<^verbatim>\<open>new URL(s).origin\<close>, \<open>None\<close> when the constructor throws;
  \<open>head_ok u\<close> holds when \<^verbatim>\<open>axios.head(u)\<close> resolves; \<open>http_get u\<close> is the
  \<^verbatim>\<open>response.data\<close> of \<^verbatim>\<open>axios.get(u)\<close>, \<open>None\<close> when the request rejects; and
  \<open>xml_parse body\<close> is the result of \<^verbatim>\<open>parseStringPromise(body)\<close>, \<open>None\<close> when it rejects.
\<close>

record world =
  url_origin :: "string \<Rightarrow> string option"
  head_ok :: "string \<Rightarrow> bool"
  http_get :: "string \<Rightarrow> string option"
  xml_parse :: "string \<Rightarrow> parsed option"

text \<open>The object \<^verbatim>\<open>{ subSitemaps, contentUrls }\<close> that \<^verbatim>\<open>parseSitemap\<close> returns.\<close>

record scan_result =
  subSitemaps :: "string list"
  contentUrls :: "string list"

type_synonym 'a settled = "error + 'a"

subsection \<open>findMainSitemap\<close>

text \<open>\<^verbatim>\<open>s.startsWith(p)\<close>, and the fixed list of candidate paths.\<close>

definition startsWith :: "string \<Rightarrow> string \<Rightarrow> bool" where
  "startsWith s p = (take (length p) s = p)"

definition sitemapPaths :: "string list" where
  "sitemapPaths =
     [''/sitemap.xml'', ''/sitemap_index.xml'', ''/wp-sitemap.xml'',
      ''/sitemap-index.xml'', ''/sitemap.xml.gz'']"

text \<open>
  The \<^verbatim>\<open>for\<close> loop over the candidate paths: one \<^verbatim>\<open>HEAD\<close> request per candidate, return
  at the first that resolves; a rejected request is swallowed by the empty \<^verbatim>\<open>catch\<close>.
\<close>

fun probe :: "world \<Rightarrow> string \<Rightarrow> string list \<Rightarrow> string option \<times> event list" where
  "probe w origin [] = (None, [])"
| "probe w origin (sitemapPath # rest) =
     (let sitemapUrl = origin @ sitemapPath in
      if head_ok w sitemapUrl
      then (Some sitemapUrl, [HEAD sitemapUrl, ConsoleLog (FoundMain sitemapUrl)])
      else (case probe w origin rest of (r, evs) \<Rightarrow> (r, HEAD sitemapUrl # evs)))"

text \<open>
  The first two lines of the function: the prefix test, and the \<^verbatim>\<open>URL\<close> constructor, which
  throws before anything is printed or requested.
\<close>

definition baseUrl :: "string \<Rightarrow> string" where
  "baseUrl domain = (if startsWith domain ''http'' then domain else ''https://'' @ domain)"

definition findMainSitemap :: "world \<Rightarrow> string \<Rightarrow> string option settled \<times> event list" where
  "findMainSitemap w domain =
     (case url_origin w (baseUrl domain) of
        None \<Rightarrow> (Inl InvalidURL, [])
      | Some origin \<Rightarrow>
          (case probe w origin sitemapPaths of
             (Some sitemapUrl, evs) \<Rightarrow>
               (Inr (Some sitemapUrl), ConsoleLog (Searching origin) # evs)
           | (None, evs) \<Rightarrow>
               (Inr None,
                ConsoleLog (Searching origin) # evs @ [ConsoleLog (CouldNotFind domain)])))"

subsection \<open>parseSitemap\<close>

text \<open>
  \<^verbatim>\<open>entries.map(entry => entry.loc[0])\<close>: the list of the entries' locations, or the
  \<^verbatim>\<open>TypeError\<close> of the first entry without a \<^verbatim>\<open>loc\<close>.
\<close>

fun map_loc :: "entry list \<Rightarrow> string list settled" where
  "map_loc [] = Inr []"
| "map_loc (e # es) =
     (case loc e of
        None \<Rightarrow> Inl TypeError
      | Some l \<Rightarrow> (case map_loc es of Inl err \<Rightarrow> Inl err | Inr ls \<Rightarrow> Inr (l # ls)))"

text \<open>
  \<^verbatim>\<open>result.sitemapindex && result.sitemapindex.sitemap\<close> and its \<^verbatim>\<open>urlset\<close> twin, for
  a result that is not \<^verbatim>\<open>null\<close>: the array under the root when the root element has the
  name asked for and has such children, \<open>None\<close> for a falsy value.
\<close>

definition array_under ::
  "string \<Rightarrow> (string \<Rightarrow> entry list option) \<Rightarrow> string \<Rightarrow> string \<Rightarrow> entry list option" where
  "array_under name children root child = (if name = root then children child else None)"

text \<open>
  The state of the \<^verbatim>\<open>try\<close> block: what was thrown, if anything, the two accumulators
  as they stand at that moment, and the effects so far.
\<close>

type_synonym attempt = "error option \<times> scan_result \<times> event list"

text \<open>
  The loop over \<^verbatim>\<open>sitemapLocations\<close>, with the recursive call as the parameter
  \<open>walk\<close>: each nested result is awaited before the next location is visited, and a
  rejected nested promise would be thrown at the \<^verbatim>\<open>await\<close>.
\<close>

fun for_locations ::
  "(string \<Rightarrow> (scan_result settled \<times> event list) option) \<Rightarrow> string list \<Rightarrow> scan_result \<Rightarrow>
   attempt option" where
  "for_locations walk [] acc = Some (None, acc, [])"
| "for_locations walk (location # rest) acc =
     Option.bind (walk location) (\<lambda>(nested, evs).
       case nested of
         Inl err \<Rightarrow> Some (Some err, acc, evs)
       | Inr nestedResult \<Rightarrow>
           Option.bind
             (for_locations walk rest
                (acc\<lparr>subSitemaps := subSitemaps acc @ subSitemaps nestedResult,
                     contentUrls := contentUrls acc @ contentUrls nestedResult\<rparr>))
             (\<lambda>(thrown, acc', evs'). Some (thrown, acc', evs @ evs')))"

lemma for_locations_mono [partial_function_mono]:
  assumes "\<And>location. mono_option (\<lambda>f. walk f location)"
  shows "mono_option (\<lambda>f. for_locations (walk f) locations acc)"
  using assms
proof (induction locations arbitrary: acc)
  case Nil
  show ?case by (simp add: option.const_mono)
next
  case (Cons location rest)
  have step: "mono_option (\<lambda>f. case y of (nested, evs) \<Rightarrow>
       (case nested of
         Inl err \<Rightarrow> Some (Some err, acc, evs)
       | Inr nestedResult \<Rightarrow>
           Option.bind
             (for_locations (walk f) rest
                (acc\<lparr>subSitemaps := subSitemaps acc @ subSitemaps nestedResult,
                     contentUrls := contentUrls acc @ contentUrls nestedResult\<rparr>))
             (\<lambda>(thrown, acc', evs'). Some (thrown, acc', evs @ evs'))))" for y
  proof (cases y)
    case (Pair nested evs)
    show ?thesis
    proof (cases nested)
      case (Inl err)
      with Pair show ?thesis by (simp add: option.const_mono)
    next
      case (Inr nestedResult)
      with Pair show ?thesis
        by (simp del: for_locations.simps)
           (intro bind_mono Cons.IH Cons.prems option.const_mono)
    qed
  qed
  show ?case
    unfolding for_locations.simps
    by (rule bind_mono [OF Cons.prems]) (rule step)
qed

text \<open>The second \<^verbatim>\<open>if\<close> of the \<^verbatim>\<open>try\<close> block: the \<^verbatim>\<open>urlset\<close> entries.\<close>

definition urlset_step ::
  "string \<Rightarrow> (string \<Rightarrow> entry list option) \<Rightarrow> scan_result \<Rightarrow> error option \<times> scan_result" where
  "urlset_step name children acc =
     (case array_under name children ''urlset'' ''url'' of
        None \<Rightarrow> (None, acc)
      | Some entries \<Rightarrow>
          (case map_loc entries of
             Inl err \<Rightarrow> (Some err, acc)
           | Inr urls \<Rightarrow> (None, acc\<lparr>contentUrls := contentUrls acc @ urls\<rparr>)))"

text \<open>
  The end of the function: the \<^verbatim>\<open>catch\<close> prints the diagnostic when something was thrown,
  and in either case the promise resolves with the two accumulators.
\<close>

definition finish :: "string \<Rightarrow> attempt \<Rightarrow> scan_result settled \<times> event list" where
  "finish sitemapUrl a =
     (case a of
        (None, acc, evs) \<Rightarrow> (Inr acc, [ConsoleLog (Parsing sitemapUrl), GET sitemapUrl] @ evs)
      | (Some err, acc, evs) \<Rightarrow>
          (Inr acc,
           [ConsoleLog (Parsing sitemapUrl), GET sitemapUrl] @ evs @
           [ConsoleError (ErrorOccurred sitemapUrl err)]))"

definition empty_result :: scan_result where
  "empty_result = \<lparr>subSitemaps = [], contentUrls = []\<rparr>"

partial_function (option) parseSitemap ::
  "world \<Rightarrow> string \<Rightarrow> (scan_result settled \<times> event list) option" where
  "parseSitemap w sitemapUrl =
     (case http_get w sitemapUrl of
        None \<Rightarrow> Some (finish sitemapUrl (Some RequestFailed, empty_result, []))
      | Some body \<Rightarrow>
          (case xml_parse w body of
             None \<Rightarrow> Some (finish sitemapUrl (Some XmlParseError, empty_result, []))
           | Some Null \<Rightarrow> Some (finish sitemapUrl (Some TypeError, empty_result, []))
           | Some (Root name children) \<Rightarrow>
               (case array_under name children ''sitemapindex'' ''sitemap'' of
                  None \<Rightarrow>
                    (case urlset_step name children empty_result of
                       (thrown, acc) \<Rightarrow> Some (finish sitemapUrl (thrown, acc, [])))
                | Some entries \<Rightarrow>
                    (case map_loc entries of
                       Inl err \<Rightarrow> Some (finish sitemapUrl (Some err, empty_result, []))
                     | Inr sitemapLocations \<Rightarrow>
                         Option.bind
                           (for_locations (\<lambda>location. parseSitemap w location) sitemapLocations
                              (empty_result\<lparr>subSitemaps := sitemapLocations\<rparr>))
                           (\<lambda>(thrown, acc, evs).
                              case thrown of
                                Some err \<Rightarrow> Some (finish sitemapUrl (Some err, acc, evs))
                              | None \<Rightarrow>
                                  (case urlset_step name children acc of
                                     (thrown', acc') \<Rightarrow>
                                       Some (finish sitemapUrl (thrown', acc', evs))))))))"

subsection \<open>getLinks\<close>

text \<open>
  \<^verbatim>\<open>!mainSitemapUrl\<close> holds of \<^verbatim>\<open>null\<close> and of the empty string. A rejection of either
  awaited promise rejects the caller: neither function of this section has a \<^verbatim>\<open>try\<close>.
\<close>

definition getLinks :: "world \<Rightarrow> string \<Rightarrow> (string list settled \<times> event list) option" where
  "getLinks w domain =
     (case findMainSitemap w domain of
        (Inl err, evs) \<Rightarrow> Some (Inl err, evs)
      | (Inr None, evs) \<Rightarrow> Some (Inr [], evs)
      | (Inr (Some mainSitemapUrl), evs) \<Rightarrow>
          if mainSitemapUrl = [] then Some (Inr [], evs)
          else
            (case parseSitemap w mainSitemapUrl of
               None \<Rightarrow> None
             | Some (Inl err, evs') \<Rightarrow> Some (Inl err, evs @ evs')
             | Some (Inr result, evs') \<Rightarrow> Some (Inr (contentUrls result), evs @ evs')))"

subsection \<open>cliMain\<close>

text \<open>
  How a run of \<^verbatim>\<open>cliMain\<close> ends: \<^verbatim>\<open>process.exit(n)\<close>, a plain return, or a rejection.
  \<open>argv_at argv i\<close> is \<^verbatim>\<open>process.argv[i]\<close>, \<open>None\<close> for \<^verbatim>\<open>undefined\<close>.
\<close>

datatype ending = Exit nat | Returned | Thrown error

definition argv_at :: "string list \<Rightarrow> nat \<Rightarrow> string option" where
  "argv_at argv i = (if i < length argv then Some (argv ! i) else None)"

definition usage_error :: "(ending \<times> event list) option" where
  "usage_error = Some (Exit 1, [ConsoleError ProvideDomainAndArgument, ConsoleLog Usage])"

definition print_subs :: "string list \<Rightarrow> event list" where
  "print_subs subs =
     (if length subs > 0
      then ConsoleLog (FoundSubs (length subs)) # map (\<lambda>url. ConsoleLog (Line url)) subs
      else [ConsoleLog NoSubs])"

definition print_urls :: "string list \<Rightarrow> event list" where
  "print_urls urls =
     (if length urls > 0
      then ConsoleLog (FoundUrls (length urls)) # map (\<lambda>url. ConsoleLog (Line url)) urls
      else [ConsoleLog NoUrls])"

text \<open>The part of \<^verbatim>\<open>cliMain\<close> after the check of the two arguments.\<close>

definition cli_scan :: "world \<Rightarrow> string \<Rightarrow> string \<Rightarrow> (ending \<times> event list) option" where
  "cli_scan w domain argument =
     (case findMainSitemap w domain of
        (Inl err, evs) \<Rightarrow> Some (Thrown err, evs)
      | (Inr None, evs) \<Rightarrow> Some (Exit 1, evs)
      | (Inr (Some mainSitemapUrl), evs) \<Rightarrow>
          if mainSitemapUrl = [] then Some (Exit 1, evs)
          else if argument = ''--main''
          then Some (Returned, evs @ [ConsoleLog MainHeader, ConsoleLog (Line mainSitemapUrl)])
          else
            (case parseSitemap w mainSitemapUrl of
               None \<Rightarrow> None
             | Some (Inl err, evs') \<Rightarrow> Some (Thrown err, evs @ evs')
             | Some (Inr result, evs') \<Rightarrow>
                 if argument = ''--subs''
                 then Some (Returned, evs @ evs' @ print_subs (subSitemaps result))
                 else if argument = ''--urls''
                 then Some (Returned, evs @ evs' @ print_urls (contentUrls result))
                 else Some (Exit 1, evs @ evs' @ [ConsoleError (InvalidArgument argument)])))"

definition cliMain :: "world \<Rightarrow> string list \<Rightarrow> (ending \<times> event list) option" where
  "cliMain w argv =
     (case (argv_at argv 2, argv_at argv 3) of
        (Some domain, Some argument) \<Rightarrow>
          if domain = [] \<or> argument = [] then usage_error else cli_scan w domain argument
      | _ \<Rightarrow> usage_error)"

text \<open>
  The script run directly, \<^verbatim>\<open>cliMain().catch(console.error)\<close>: the exit status of the
  process. A rejection is printed and the process then ends by itself, with status 0.
\<close>

definition script :: "world \<Rightarrow> string list \<Rightarrow> (nat \<times> event list) option" where
  "script w argv =
     (case cliMain w argv of
        None \<Rightarrow> None
      | Some (Exit n, evs) \<Rightarrow> Some (n, evs)
      | Some (Returned, evs) \<Rightarrow> Some (0, evs)
      | Some (Thrown err, evs) \<Rightarrow> Some (0, evs @ [ConsoleError (Uncaught err)]))"

subsection \<open>Reading a list of effects\<close>

text \<open>The URLs of the existence checks, and of the full requests, in the order they were sent.\<close>

fun head_requests :: "event list \<Rightarrow> string list" where
  "head_requests [] = []"
| "head_requests (HEAD u # evs) = u # head_requests evs"
| "head_requests (e # evs) = head_requests evs"

fun get_requests :: "event list \<Rightarrow> string list" where
  "get_requests [] = []"
| "get_requests (GET u # evs) = u # get_requests evs"
| "get_requests (e # evs) = get_requests evs"

subsection \<open>The shape of a sitemap tree\<close>

text \<open>
  The locations the walk of \<open>sitemapUrl\<close> descends into: the \<^verbatim>\<open>sitemapLocations\<close> of the
  source when the walk reaches its loop, and none when it does not.
\<close>

definition sitemapLocations :: "world \<Rightarrow> string \<Rightarrow> string list" where
  "sitemapLocations w sitemapUrl =
     (case http_get w sitemapUrl of
        None \<Rightarrow> []
      | Some body \<Rightarrow>
          (case xml_parse w body of
             None \<Rightarrow> []
           | Some Null \<Rightarrow> []
           | Some (Root name children) \<Rightarrow>
               (case array_under name children ''sitemapindex'' ''sitemap'' of
                  None \<Rightarrow> []
                | Some entries \<Rightarrow>
                    (case map_loc entries of Inl err \<Rightarrow> [] | Inr locations \<Rightarrow> locations))))"

text \<open>
  \<open>finite_tree w u\<close>: every chain of sitemap-index references that starts at \<open>u\<close> ends;
  in particular no sitemap below \<open>u\<close> refers back to itself.
\<close>

inductive finite_tree :: "world \<Rightarrow> string \<Rightarrow> bool" for w :: world where
  node: "(\<And>l. l \<in> set (sitemapLocations w u) \<Longrightarrow> finite_tree w l) \<Longrightarrow> finite_tree w u"

text \<open>
  What a URL serves, as the walker will read it: a \<^verbatim>\<open>sitemapindex\<close> document whose
  \<^verbatim>\<open>sitemap\<close> entries carry the given locations, a \<^verbatim>\<open>urlset\<close> document whose \<^verbatim>\<open>url\<close>
  entries carry the given locations, or a failure of the request or of the XML parser.
\<close>

definition serves_index :: "world \<Rightarrow> string \<Rightarrow> string list \<Rightarrow> bool" where
  "serves_index w sitemapUrl locations =
     (case http_get w sitemapUrl of
        None \<Rightarrow> False
      | Some body \<Rightarrow>
          (case xml_parse w body of
             Some (Root name children) \<Rightarrow>
               name = ''sitemapindex'' \<and>
               children ''sitemap'' = Some (map (\<lambda>l. Entry (Some l)) locations)
           | _ \<Rightarrow> False))"

definition serves_urlset :: "world \<Rightarrow> string \<Rightarrow> string list \<Rightarrow> bool" where
  "serves_urlset w sitemapUrl locations =
     (case http_get w sitemapUrl of
        None \<Rightarrow> False
      | Some body \<Rightarrow>
          (case xml_parse w body of
             Some (Root name children) \<Rightarrow>
               name = ''urlset'' \<and> children ''url'' = Some (map (\<lambda>l. Entry (Some l)) locations)
           | _ \<Rightarrow> False))"

definition fetch_or_parse_fails :: "world \<Rightarrow> string \<Rightarrow> bool" where
  "fetch_or_parse_fails w sitemapUrl =
     (case http_get w sitemapUrl of None \<Rightarrow> True | Some body \<Rightarrow> xml_parse w body = None)"

subsection \<open>Example worlds\<close>

text \<open>
  A stand-in for the platform's URL parser in the examples. It agrees with
  \<^verbatim>\<open>new URL(s).origin\<close> on the strings the examples give it: a lower-case
  \<^verbatim>\<open>http://\<close> or \<^verbatim>\<open>https://\<close> followed by a plain host name and perhaps a path, and
  strings with no scheme at all or with a space in the host, which the platform rejects.
\<close>

definition simple_origin :: "string \<Rightarrow> string option" where
  "simple_origin s =
     (let scheme = (if startsWith s ''https://'' then ''https://''
                    else if startsWith s ''http://'' then ''http://'' else []);
          host = takeWhile (\<lambda>c. c \<notin> set ''/?#'') (drop (length scheme) s)
      in if scheme = [] \<or> host = [] \<or> CHR '' '' \<in> set host then None
         else Some (scheme @ host))"

text \<open>
  A site: the URLs that answer a \<^verbatim>\<open>HEAD\<close> request, the bodies served to \<^verbatim>\<open>GET\<close>, and
  what the XML parser makes of each body. Every other request fails.
\<close>

definition site ::
  "string list \<Rightarrow> (string \<times> string) list \<Rightarrow> (string \<times> parsed) list \<Rightarrow> world" where
  "site reachable pages documents =
     \<lparr>url_origin = simple_origin, head_ok = (\<lambda>u. u \<in> set reachable),
      http_get = map_of pages, xml_parse = map_of documents\<rparr>"

definition sitemapindex :: "string list \<Rightarrow> parsed" where
  "sitemapindex locations =
     Root ''sitemapindex'' [''sitemap'' \<mapsto> map (\<lambda>l. Entry (Some l)) locations]"

definition urlset :: "string list \<Rightarrow> parsed" where
  "urlset locations = Root ''urlset'' [''url'' \<mapsto> map (\<lambda>l. Entry (Some l)) locations]"

text \<open>A site where only the third candidate path answers.\<close>

definition wordpress_site :: world where
  "wordpress_site = site [''https://example.com/wp-sitemap.xml''] [] []"

text \<open>A single \<^verbatim>\<open>urlset\<close> that lists one page twice.\<close>

definition leaf_site :: world where
  "leaf_site =
     site [''https://example.com/sitemap.xml'']
       [(''https://example.com/sitemap.xml'', ''three urls'')]
       [(''three urls'',
         urlset [''https://example.com/a'', ''https://example.com/b'', ''https://example.com/a''])]"

text \<open>An index of two \<^verbatim>\<open>urlset\<close> documents, with two and with three pages.\<close>

definition index_site :: world where
  "index_site =
     site [''https://example.com/sitemap.xml'']
       [(''https://example.com/sitemap.xml'', ''index''),
        (''https://example.com/a.xml'', ''two urls''),
        (''https://example.com/b.xml'', ''three urls'')]
       [(''index'', sitemapindex [''https://example.com/a.xml'', ''https://example.com/b.xml'']),
        (''two urls'', urlset [''https://example.com/1'', ''https://example.com/2'']),
        (''three urls'',
         urlset [''https://example.com/3'', ''https://example.com/4'', ''https://example.com/5''])]"

text \<open>An index of three sitemaps, the second of which cannot be fetched.\<close>

definition broken_site :: world where
  "broken_site =
     site [''https://example.com/sitemap.xml'']
       [(''https://example.com/sitemap.xml'', ''index''),
        (''https://example.com/a.xml'', ''one url''),
        (''https://example.com/b.xml'', ''another url'')]
       [(''index'',
         sitemapindex [''https://example.com/a.xml'', ''https://example.com/gone.xml'',
                       ''https://example.com/b.xml'']),
        (''one url'', urlset [''https://example.com/1'']),
        (''another url'', urlset [''https://example.com/2''])]"

text \<open>
  The scenario of the specification: only \<^verbatim>\<open>/sitemap.xml\<close> answers, and it is an index of
  one \<^verbatim>\<open>urlset\<close> with two posts.
\<close>

definition posts_site :: world where
  "posts_site =
     site [''https://example.com/sitemap.xml'']
       [(''https://example.com/sitemap.xml'', ''index''),
        (''https://example.com/sitemap-posts.xml'', ''posts'')]
       [(''index'', sitemapindex [''https://example.com/sitemap-posts.xml'']),
        (''posts'', urlset [''https://example.com/p1'', ''https://example.com/p2''])]"

text \<open>A site with no sitemap at any candidate path.\<close>

definition bare_site :: world where
  "bare_site = site [] [] []"

text \<open>An index that lists itself, and two indexes that list each other.\<close>

definition self_site :: world where
  "self_site =
     site [''https://example.com/sitemap.xml'']
       [(''https://example.com/sitemap.xml'', ''index'')]
       [(''index'', sitemapindex [''https://example.com/sitemap.xml''])]"

definition cycle_site :: world where
  "cycle_site =
     site [''https://example.com/sitemap.xml'']
       [(''https://example.com/sitemap.xml'', ''first''),
        (''https://example.com/sitemap2.xml'', ''second'')]
       [(''first'', sitemapindex [''https://example.com/sitemap2.xml'']),
        (''second'', sitemapindex [''https://example.com/sitemap.xml''])]"

text \<open>
  Documents the walker does not recognise: a page whose root is neither \<^verbatim>\<open>sitemapindex\<close>
  nor \<^verbatim>\<open>urlset\<close>, and an index with an entry that has no \<^verbatim>\<open>loc\<close>.
\<close>

definition odd_site :: world where
  "odd_site =
     site [''https://example.com/sitemap.xml'']
       [(''https://example.com/sitemap.xml'', ''page''),
        (''https://example.com/feed.xml'', ''no loc'')]
       [(''page'', Root ''html'' Map.empty),
        (''no loc'', Root ''sitemapindex'' [''sitemap'' \<mapsto> [Entry None]])]"

text \<open>A host whose name begins with the letters \<^verbatim>\<open>http\<close>.\<close>

definition httpbin_site :: world where
  "httpbin_site = site [''https://httpbin.org/sitemap.xml''] [] []"

section \<open>Auxiliary facts\<close>

subsection \<open>Effects and the probing loop\<close>

lemma head_requests_append: "head_requests (xs @ ys) = head_requests xs @ head_requests ys"
  by (induction xs rule: head_requests.induct) simp_all

lemma get_requests_append: "get_requests (xs @ ys) = get_requests xs @ get_requests ys"
  by (induction xs rule: get_requests.induct) simp_all

lemma probe_none:
  "\<forall>p \<in> set ps. \<not> head_ok w (origin @ p) \<Longrightarrow>
   probe w origin ps = (None, map (\<lambda>p. HEAD (origin @ p)) ps)"
  by (induction ps) simp_all

lemma probe_first:
  assumes "\<forall>p \<in> set ps. \<not> head_ok w (origin @ p)" and "head_ok w (origin @ q)"
  shows "probe w origin (ps @ q # rest) =
           (Some (origin @ q),
            map (\<lambda>p. HEAD (origin @ p)) (ps @ [q]) @ [ConsoleLog (FoundMain (origin @ q))])"
  using assms by (induction ps) (simp_all add: Let_def)

lemma head_requests_map_HEAD: "head_requests (map (\<lambda>p. HEAD (f p)) ps) = map f ps"
  by (induction ps) simp_all

lemma distinct_sitemapPaths: "distinct sitemapPaths"
  by (simp add: sitemapPaths_def)

subsection \<open>One level of the walk\<close>

lemma finish_Inr: "\<exists>r evs. finish u a = (Inr r, evs)"
  by (cases a) (auto simp: finish_def split: option.splits)

lemma walk_never_rejects:
  "parseSitemap w u = Some (x, evs) \<Longrightarrow> \<exists>r. x = Inr r"
  apply (subst (asm) parseSitemap.simps)
  apply (auto simp: finish_def split: option.splits parsed.splits prod.splits sum.splits Option.bind_splits)
  done

lemma walk_request_failed:
  "http_get w u = None \<Longrightarrow>
   parseSitemap w u =
     Some (Inr empty_result,
           [ConsoleLog (Parsing u), GET u, ConsoleError (ErrorOccurred u RequestFailed)])"
  by (subst parseSitemap.simps) (simp add: finish_def)

lemma walk_parse_failed:
  "http_get w u = Some body \<Longrightarrow> xml_parse w body = None \<Longrightarrow>
   parseSitemap w u =
     Some (Inr empty_result,
           [ConsoleLog (Parsing u), GET u, ConsoleError (ErrorOccurred u XmlParseError)])"
  by (subst parseSitemap.simps) (simp add: finish_def)

lemma walk_null:
  "http_get w u = Some body \<Longrightarrow> xml_parse w body = Some Null \<Longrightarrow>
   parseSitemap w u =
     Some (Inr empty_result,
           [ConsoleLog (Parsing u), GET u, ConsoleError (ErrorOccurred u TypeError)])"
  by (subst parseSitemap.simps) (simp add: finish_def)

lemma map_loc_all: "map_loc (map (\<lambda>l. Entry (Some l)) ls) = Inr ls"
  by (induction ls) simp_all

lemma walk_urlset:
  assumes "http_get w u = Some body" and "xml_parse w body = Some (Root ''urlset'' children)"
    and "children ''url'' = Some entries" and "map_loc entries = Inr urls"
  shows "parseSitemap w u =
     Some (Inr \<lparr>subSitemaps = [], contentUrls = urls\<rparr>, [ConsoleLog (Parsing u), GET u])"
  using assms
  by (subst parseSitemap.simps) (simp add: finish_def array_under_def urlset_step_def empty_result_def)

lemma walk_other:
  assumes "http_get w u = Some body" and "xml_parse w body = Some (Root name children)"
    and "array_under name children ''sitemapindex'' ''sitemap'' = None"
    and "array_under name children ''urlset'' ''url'' = None"
  shows "parseSitemap w u = Some (Inr empty_result, [ConsoleLog (Parsing u), GET u])"
  using assms
  by (subst parseSitemap.simps) (simp add: finish_def urlset_step_def)

lemma for_locations_all:
  assumes "\<forall>l \<in> set ls. walk l = Some (Inr (r l), ev l)"
  shows "for_locations walk ls acc =
     Some (None,
           acc\<lparr>subSitemaps := subSitemaps acc @ concat (map (\<lambda>l. subSitemaps (r l)) ls),
               contentUrls := contentUrls acc @ concat (map (\<lambda>l. contentUrls (r l)) ls)\<rparr>,
           concat (map ev ls))"
  using assms by (induction ls arbitrary: acc) simp_all

lemma walk_index:
  assumes "http_get w u = Some body" and "xml_parse w body = Some (Root ''sitemapindex'' children)"
    and "children ''sitemap'' = Some entries" and "map_loc entries = Inr ls"
    and "\<forall>l \<in> set ls. parseSitemap w l = Some (Inr (r l), ev l)"
  shows "parseSitemap w u =
     Some (Inr \<lparr>subSitemaps = ls @ concat (map (\<lambda>l. subSitemaps (r l)) ls),
                contentUrls = concat (map (\<lambda>l. contentUrls (r l)) ls)\<rparr>,
           [ConsoleLog (Parsing u), GET u] @ concat (map ev ls))"
  using assms(1-4)
  by (subst parseSitemap.simps)
     (simp add: for_locations_all [OF assms(5)] finish_def array_under_def urlset_step_def empty_result_def)

lemma for_locations_returns:
  assumes "\<forall>l \<in> set ls. \<exists>r evs. walk l = Some (Inr r, evs)"
  shows "\<exists>acc' evs. for_locations walk ls acc = Some (None, acc', evs)"
  using assms
proof (induction ls arbitrary: acc)
  case Nil
  show ?case by simp
next
  case (Cons l ls)
  from Cons.prems obtain r evs where l: "walk l = Some (Inr r, evs)" by auto
  from Cons.prems have "\<forall>l \<in> set ls. \<exists>r evs. walk l = Some (Inr r, evs)" by simp
  from Cons.IH [OF this] obtain acc' evs' where
    "for_locations walk ls
       (acc\<lparr>subSitemaps := subSitemaps acc @ subSitemaps r,
            contentUrls := contentUrls acc @ contentUrls r\<rparr>) = Some (None, acc', evs')"
    by blast
  with l show ?case by simp
qed

lemma finite_tree_returns:
  "finite_tree w u \<Longrightarrow> \<exists>r evs. parseSitemap w u = Some (Inr r, evs)"
proof (induction rule: finite_tree.induct)
  case (node u)
  have nested: "\<forall>l \<in> set (sitemapLocations w u). \<exists>r evs. parseSitemap w l = Some (Inr r, evs)"
    using node.IH by blast
  have "\<exists>y. parseSitemap w u = Some y"
  proof (cases "http_get w u")
    case None
    then show ?thesis by (simp add: walk_request_failed)
  next
    case (Some body)
    show ?thesis
    proof (cases "xml_parse w body")
      case None
      with Some show ?thesis by (simp add: walk_parse_failed)
    next
      case parsed: (Some result)
      show ?thesis
      proof (cases result)
        case Null
        with Some parsed show ?thesis by (simp add: walk_null)
      next
        case (Root name children)
        show ?thesis
        proof (cases "array_under name children ''sitemapindex'' ''sitemap''")
          case None
          with Some parsed Root show ?thesis
            by (subst parseSitemap.simps) (simp split: prod.splits)
        next
          case entries: (Some entries)
          show ?thesis
          proof (cases "map_loc entries")
            case (Inl err)
            with Some parsed Root entries show ?thesis
              by (subst parseSitemap.simps) simp
          next
            case (Inr ls)
            with Some parsed Root entries have "sitemapLocations w u = ls"
              by (simp add: sitemapLocations_def)
            with nested have "\<forall>l \<in> set ls. \<exists>r evs. parseSitemap w l = Some (Inr r, evs)"
              by simp
            from for_locations_returns [OF this]
            obtain acc' evs where
              "for_locations (parseSitemap w) ls (empty_result\<lparr>subSitemaps := ls\<rparr>) =
                 Some (None, acc', evs)"
              by blast
            with Some parsed Root entries Inr show ?thesis
              by (subst parseSitemap.simps) (simp split: prod.splits)
          qed
        qed
      qed
    qed
  qed
  then obtain x evs where "parseSitemap w u = Some (x, evs)" by (cases "the (parseSitemap w u)") auto
  with walk_never_rejects [OF this] show ?case by auto
qed

subsection \<open>When the walk returns\<close>

lemma for_locations_visits_all:
  assumes "for_locations walk ls acc = Some z"
    and "\<And>l y. walk l = Some y \<Longrightarrow> Q l \<and> (\<exists>r. fst y = Inr r)"
  shows "\<forall>l \<in> set ls. Q l"
  using assms(1)
proof (induction ls arbitrary: acc z)
  case Nil
  show ?case by simp
next
  case (Cons l ls)
  from Cons.prems obtain nested evs where l: "walk l = Some (nested, evs)"
    by (auto simp: Option.bind_eq_Some_conv)
  from assms(2) [OF l] obtain r where r: "nested = Inr r" and Q: "Q l" by auto
  from Cons.prems l r obtain z' where
    "for_locations walk ls
       (acc\<lparr>subSitemaps := subSitemaps acc @ subSitemaps r,
            contentUrls := contentUrls acc @ contentUrls r\<rparr>) = Some z'"
    by (auto simp: Option.bind_eq_Some_conv)
  from Cons.IH [OF this] Q show ?case by simp
qed

lemma sitemapLocations_shape:
  assumes "l \<in> set (sitemapLocations w u)"
  shows "\<exists>body name children entries.
           http_get w u = Some body \<and> xml_parse w body = Some (Root name children) \<and>
           array_under name children ''sitemapindex'' ''sitemap'' = Some entries \<and>
           map_loc entries = Inr (sitemapLocations w u)"
proof (cases "http_get w u")
  case None
  with assms show ?thesis by (simp add: sitemapLocations_def)
next
  case (Some body)
  with assms show ?thesis
    by (cases "xml_parse w body")
       (auto simp: sitemapLocations_def split: parsed.splits option.splits sum.splits)
qed

lemma returns_finite_tree_aux:
  "parseSitemap w u = Some y \<Longrightarrow> finite_tree w u \<and> (\<exists>r. fst y = Inr r)"
proof (induct rule: parseSitemap.raw_induct [rotated -1, consumes 1, case_names step])
  case (step walk w u y)
  note IH = step(1) and body = step(2)
  have settled: "\<exists>r. fst y = Inr r"
    using body finish_Inr
    by (auto split: option.splits parsed.splits prod.splits sum.splits
             simp: Option.bind_eq_Some_conv) (metis fst_conv)+
  have "finite_tree w l" if "l \<in> set (sitemapLocations w u)" for l
  proof -
    let ?ls = "sitemapLocations w u"
    from sitemapLocations_shape [OF that] obtain body' name children entries where
      "http_get w u = Some body'" "xml_parse w body' = Some (Root name children)"
      "array_under name children ''sitemapindex'' ''sitemap'' = Some entries"
      "map_loc entries = Inr ?ls"
      by blast
    with body obtain z where
      "for_locations (walk w) ?ls (empty_result\<lparr>subSitemaps := ?ls\<rparr>) = Some z"
      by (auto simp: Option.bind_eq_Some_conv)
    from for_locations_visits_all [OF this, of "finite_tree w"] IH that
    show ?thesis by blast
  qed
  then have "finite_tree w u" by (rule finite_tree.node)
  with settled show ?case by simp
qed

lemma returns_iff_finite_tree: "(\<exists>y. parseSitemap w u = Some y) = finite_tree w u"
  using returns_finite_tree_aux finite_tree_returns by blast

subsection \<open>Documents and their walks\<close>

lemma serves_urlset_walk:
  assumes "serves_urlset w u urls"
  shows "parseSitemap w u =
     Some (Inr \<lparr>subSitemaps = [], contentUrls = urls\<rparr>, [ConsoleLog (Parsing u), GET u])"
proof -
  from assms obtain body children where
    "http_get w u = Some body" "xml_parse w body = Some (Root ''urlset'' children)"
    "children ''url'' = Some (map (\<lambda>l. Entry (Some l)) urls)"
    by (auto simp: serves_urlset_def split: option.splits parsed.splits)
  then show ?thesis
    by (rule walk_urlset) (rule map_loc_all)
qed

lemma serves_index_walk:
  assumes "serves_index w u ls"
    and "\<forall>l \<in> set ls. parseSitemap w l = Some (Inr (r l), ev l)"
  shows "parseSitemap w u =
     Some (Inr \<lparr>subSitemaps = ls @ concat (map (\<lambda>l. subSitemaps (r l)) ls),
                contentUrls = concat (map (\<lambda>l. contentUrls (r l)) ls)\<rparr>,
           [ConsoleLog (Parsing u), GET u] @ concat (map ev ls))"
proof -
  from assms(1) obtain body children where
    "http_get w u = Some body" "xml_parse w body = Some (Root ''sitemapindex'' children)"
    "children ''sitemap'' = Some (map (\<lambda>l. Entry (Some l)) ls)"
    by (auto simp: serves_index_def split: option.splits parsed.splits)
  then show ?thesis
    by (rule walk_index) (rule map_loc_all, rule assms(2))
qed

lemma fetch_or_parse_fails_walk:
  assumes "fetch_or_parse_fails w u"
  shows "parseSitemap w u =
     Some (Inr empty_result,
           [ConsoleLog (Parsing u), GET u,
            ConsoleError (ErrorOccurred u
              (if http_get w u = None then RequestFailed else XmlParseError))])"
  using assms
  by (auto simp: fetch_or_parse_fails_def walk_request_failed walk_parse_failed
           split: option.splits)

lemma concat_map_except:
  assumes "f bad = []"
  shows "concat (map f ls) = concat (map f (filter (\<lambda>l. l \<noteq> bad) ls))"
  using assms by (induction ls) simp_all

lemma walk_starts_with_GET:
  "parseSitemap w u = Some (x, evs) \<Longrightarrow> GET u \<in> set evs"
  apply (subst (asm) parseSitemap.simps)
  apply (auto simp: finish_def Option.bind_eq_Some_conv
              split: option.splits parsed.splits prod.splits sum.splits)
  done

subsection \<open>What the locator leaves behind\<close>

lemma probe_found:
  "probe w origin ps = (Some url, evs) \<Longrightarrow>
   (\<exists>p \<in> set ps. url = origin @ p) \<and> HEAD url \<in> set evs"
  by (induction ps arbitrary: evs) (auto simp: Let_def split: if_splits prod.splits)

lemma probe_no_get: "get_requests (snd (probe w origin ps)) = []"
  by (induction ps) (auto simp: Let_def split: prod.splits)

lemma findMainSitemap_no_get: "get_requests (snd (findMainSitemap w domain)) = []"
proof (cases "url_origin w (baseUrl domain)")
  case None
  then show ?thesis by (simp add: findMainSitemap_def)
next
  case (Some origin)
  obtain r evs where p: "probe w origin sitemapPaths = (r, evs)"
    by (cases "probe w origin sitemapPaths")
  with probe_no_get [of w origin sitemapPaths] have "get_requests evs = []" by simp
  with Some p show ?thesis
    by (cases r) (simp_all add: findMainSitemap_def get_requests_append)
qed

lemma findMainSitemap_found:
  assumes "findMainSitemap w domain = (Inr (Some url), evs)"
  shows "url \<noteq> [] \<and> HEAD url \<in> set evs"
proof -
  from assms obtain origin evs' where
    "probe w origin sitemapPaths = (Some url, evs')" and evs: "evs = ConsoleLog (Searching origin) # evs'"
    by (auto simp: findMainSitemap_def split: option.splits prod.splits)
  from probe_found [OF this(1)] obtain p where "p \<in> set sitemapPaths" "url = origin @ p"
    and "HEAD url \<in> set evs'" by blast
  then show ?thesis using evs by (auto simp: sitemapPaths_def)
qed

lemma probe_checks_origin_paths:
  "set (head_requests (snd (probe w origin ps))) \<subseteq> (\<lambda>p. origin @ p) ` set ps"
  by (induction ps) (auto simp: Let_def split: prod.splits)

lemma findMainSitemap_checks_origin_paths:
  assumes "url_origin w (baseUrl domain) = Some origin"
  shows "set (head_requests (snd (findMainSitemap w domain))) \<subseteq>
           (\<lambda>p. origin @ p) ` set sitemapPaths"
proof -
  obtain r evs where p: "probe w origin sitemapPaths = (r, evs)"
    by (cases "probe w origin sitemapPaths")
  with probe_checks_origin_paths [of w origin sitemapPaths]
  have "set (head_requests evs) \<subseteq> (\<lambda>p. origin @ p) ` set sitemapPaths" by simp
  with assms p show ?thesis
    by (cases r) (simp_all add: findMainSitemap_def head_requests_append)
qed

lemma baseUrl_prefixed: "\<not> startsWith domain ''http'' \<Longrightarrow> baseUrl domain = ''https://'' @ domain"
  by (simp add: baseUrl_def)

subsection \<open>Cycles and finite trees\<close>

lemma cycle_not_finite_tree:
  assumes "finite_tree w u" and "\<forall>c \<in> C. \<exists>l \<in> set (sitemapLocations w c). l \<in> C"
  shows "u \<notin> C"
  using assms(1)
proof induction
  case (node u)
  show ?case
  proof
    assume "u \<in> C"
    with assms(2) obtain l where "l \<in> set (sitemapLocations w u)" "l \<in> C" by blast
    with node.IH show False by blast
  qed
qed

lemma cycle_never_returns:
  assumes "u \<in> C" and "\<forall>c \<in> C. \<exists>l \<in> set (sitemapLocations w c). l \<in> C"
  shows "parseSitemap w u = None"
proof (cases "parseSitemap w u")
  case None
  then show ?thesis .
next
  case (Some y)
  from returns_finite_tree_aux [OF this] have "finite_tree w u" by simp
  from cycle_not_finite_tree [OF this assms(2)] assms(1) show ?thesis by simp
qed

lemma serves_index_locations:
  "serves_index w u ls \<Longrightarrow> sitemapLocations w u = ls"
  by (auto simp: serves_index_def sitemapLocations_def array_under_def map_loc_all
           split: option.splits parsed.splits)

lemma no_locations_finite_tree: "sitemapLocations w u = [] \<Longrightarrow> finite_tree w u"
  by (rule finite_tree.node) simp

lemma serves_urlset_locations:
  "serves_urlset w u urls \<Longrightarrow> sitemapLocations w u = []"
  by (auto simp: serves_urlset_def sitemapLocations_def array_under_def
           split: option.splits parsed.splits)

subsection \<open>The scenario of the specification, evaluated\<close>

lemma posts_site_located:
  "findMainSitemap posts_site ''example.com'' =
     (Inr (Some ''https://example.com/sitemap.xml''),
      [ConsoleLog (Searching ''https://example.com''), HEAD ''https://example.com/sitemap.xml'',
       ConsoleLog (FoundMain ''https://example.com/sitemap.xml'')])"
  by (simp add: findMainSitemap_def posts_site_def site_def baseUrl_def startsWith_def
        simple_origin_def sitemapPaths_def Let_def)

lemma posts_site_walk:
  "parseSitemap posts_site ''https://example.com/sitemap.xml'' =
     Some (Inr \<lparr>subSitemaps = [''https://example.com/sitemap-posts.xml''],
                contentUrls = [''https://example.com/p1'', ''https://example.com/p2'']\<rparr>,
           [ConsoleLog (Parsing ''https://example.com/sitemap.xml''),
            GET ''https://example.com/sitemap.xml'',
            ConsoleLog (Parsing ''https://example.com/sitemap-posts.xml''),
            GET ''https://example.com/sitemap-posts.xml''])"
proof -
  have index: "serves_index posts_site ''https://example.com/sitemap.xml''
                 [''https://example.com/sitemap-posts.xml'']"
    by (simp add: serves_index_def posts_site_def site_def sitemapindex_def)
  have posts: "serves_urlset posts_site ''https://example.com/sitemap-posts.xml''
                 [''https://example.com/p1'', ''https://example.com/p2'']"
    by (simp add: serves_urlset_def posts_site_def site_def urlset_def)
  have "\<forall>l \<in> set [''https://example.com/sitemap-posts.xml''].
          parseSitemap posts_site l =
            Some (Inr ((\<lambda>l. \<lparr>subSitemaps = [],
                             contentUrls = [''https://example.com/p1'', ''https://example.com/p2'']\<rparr>) l),
                  (\<lambda>l. [ConsoleLog (Parsing l), GET l]) l)"
    using serves_urlset_walk [OF posts] by simp
  from serves_index_walk [OF index this] show ?thesis by simp
qed

lemma posts_site_finite_tree: "finite_tree posts_site ''https://example.com/sitemap.xml''"
proof (rule finite_tree.node)
  fix l
  have index: "serves_index posts_site ''https://example.com/sitemap.xml''
                 [''https://example.com/sitemap-posts.xml'']"
    by (simp add: serves_index_def posts_site_def site_def sitemapindex_def)
  have posts: "serves_urlset posts_site ''https://example.com/sitemap-posts.xml''
                 [''https://example.com/p1'', ''https://example.com/p2'']"
    by (simp add: serves_urlset_def posts_site_def site_def urlset_def)
  assume "l \<in> set (sitemapLocations posts_site ''https://example.com/sitemap.xml'')"
  with serves_index_locations [OF index] have "l = ''https://example.com/sitemap-posts.xml''"
    by simp
  with no_locations_finite_tree [OF serves_urlset_locations [OF posts]]
  show "finite_tree posts_site l" by simp
qed

subsection \<open>The command line\<close>

lemma usage_error_when_missing:
  assumes "argv_at argv 2 = None \<or> argv_at argv 2 = Some [] \<or>
           argv_at argv 3 = None \<or> argv_at argv 3 = Some []"
  shows "cliMain w argv = Some (Exit 1, [ConsoleError ProvideDomainAndArgument, ConsoleLog Usage])"
  using assms by (auto simp: cliMain_def usage_error_def split: option.splits)

section \<open>The claims\<close>

subsection \<open>C1: the locator stops at the first reachable candidate\<close>

text \<open>
  C1. When the domain has an origin and exactly one of the five candidate paths, the one at
  position \<open>i\<close> of the fixed list, passes its existence check, \<^verbatim>\<open>findMainSitemap\<close> resolves
  with origin + that path, the existence checks it performed are exactly those of the
  candidates up to and including position \<open>i\<close>, in order, and no candidate later in the
  list is checked.
\<close>

theorem findMainSitemap_first_reachable:
  assumes origin: "url_origin w (baseUrl domain) = Some origin"
    and i: "i < length sitemapPaths"
    and ok: "head_ok w (origin @ sitemapPaths ! i)"
    and only: "\<forall>j < length sitemapPaths. j \<noteq> i \<longrightarrow> \<not> head_ok w (origin @ sitemapPaths ! j)"
  shows "fst (findMainSitemap w domain) = Inr (Some (origin @ sitemapPaths ! i)) \<and>
         head_requests (snd (findMainSitemap w domain)) =
           map (\<lambda>p. origin @ p) (take (Suc i) sitemapPaths) \<and>
         (\<forall>j. i < j \<and> j < length sitemapPaths \<longrightarrow>
              origin @ sitemapPaths ! j \<notin> set (head_requests (snd (findMainSitemap w domain))))"
proof -
  let ?ps = "take i sitemapPaths" and ?q = "sitemapPaths ! i" and ?rest = "drop (Suc i) sitemapPaths"
  have split: "sitemapPaths = ?ps @ ?q # ?rest"
    using i by (simp add: id_take_nth_drop)
  have before: "\<forall>p \<in> set ?ps. \<not> head_ok w (origin @ p)"
  proof
    fix p assume "p \<in> set ?ps"
    then obtain j where "j < i" "p = sitemapPaths ! j"
      using i by (auto simp: in_set_conv_nth)
    with only i show "\<not> head_ok w (origin @ p)" by simp
  qed
  have "probe w origin (?ps @ ?q # ?rest) =
          (Some (origin @ ?q),
           map (\<lambda>p. HEAD (origin @ p)) (?ps @ [?q]) @ [ConsoleLog (FoundMain (origin @ ?q))])"
    by (rule probe_first [OF before ok])
  with split have probe:
    "probe w origin sitemapPaths =
       (Some (origin @ ?q),
        map (\<lambda>p. HEAD (origin @ p)) (?ps @ [?q]) @ [ConsoleLog (FoundMain (origin @ ?q))])"
    by simp
  have taken: "?ps @ [?q] = take (Suc i) sitemapPaths"
    using i by (simp add: take_Suc_conv_app_nth)
  have res: "findMainSitemap w domain =
       (Inr (Some (origin @ ?q)),
        ConsoleLog (Searching origin) #
        map (\<lambda>p. HEAD (origin @ p)) (take (Suc i) sitemapPaths) @
        [ConsoleLog (FoundMain (origin @ ?q))])"
    using origin probe taken by (simp add: findMainSitemap_def)
  have reqs: "head_requests (snd (findMainSitemap w domain)) =
                map (\<lambda>p. origin @ p) (take (Suc i) sitemapPaths)"
    by (simp add: res head_requests_append head_requests_map_HEAD)
  have later: "origin @ sitemapPaths ! j \<notin> set (map (\<lambda>p. origin @ p) (take (Suc i) sitemapPaths))"
    if "i < j" "j < length sitemapPaths" for j
  proof
    assume "origin @ sitemapPaths ! j \<in> set (map (\<lambda>p. origin @ p) (take (Suc i) sitemapPaths))"
    then have "sitemapPaths ! j \<in> set (take (Suc i) sitemapPaths)" by auto
    then obtain k where "k < Suc i" "sitemapPaths ! k = sitemapPaths ! j"
      using i by (auto simp: in_set_conv_nth)
    with that i distinct_sitemapPaths show False
      by (auto simp: nth_eq_iff_index_eq)
  qed
  show ?thesis using res reqs later by simp
qed

theorem findMainSitemap_first_reachable_witness:
  "url_origin wordpress_site (baseUrl ''example.com'') = Some ''https://example.com'' \<and>
   fst (findMainSitemap wordpress_site ''example.com'') =
     Inr (Some ''https://example.com/wp-sitemap.xml'') \<and>
   head_requests (snd (findMainSitemap wordpress_site ''example.com'')) =
     [''https://example.com/sitemap.xml'', ''https://example.com/sitemap_index.xml'',
      ''https://example.com/wp-sitemap.xml'']"
proof -
  have origin: "url_origin wordpress_site (baseUrl ''example.com'') = Some ''https://example.com''"
    by (simp add: wordpress_site_def site_def baseUrl_def startsWith_def simple_origin_def)
  have i: "2 < length sitemapPaths"
    by (simp add: sitemapPaths_def)
  have ok: "head_ok wordpress_site (''https://example.com'' @ sitemapPaths ! 2)"
    by (simp add: wordpress_site_def site_def sitemapPaths_def)
  have only: "\<forall>j < length sitemapPaths. j \<noteq> 2 \<longrightarrow>
                \<not> head_ok wordpress_site (''https://example.com'' @ sitemapPaths ! j)"
    by (simp add: wordpress_site_def site_def sitemapPaths_def numeral_eq_Suc All_less_Suc)
  from findMainSitemap_first_reachable [OF origin i ok only] origin
  show ?thesis by (simp add: sitemapPaths_def)
qed

subsection \<open>C2: a failure stays in its branch\<close>

text \<open>
  C2. When the request for a sitemap URL or the parsing of its body fails, \<^verbatim>\<open>parseSitemap\<close>
  catches the error at that node: it prints the diagnostic and resolves with two empty
  lists. When such a URL \<open>bad\<close> is one of the locations of an index and the walks of the
  other locations resolve, the walk of the index resolves too: its lists hold the index's
  own locations and what the other locations contribute, \<open>bad\<close> contributes nothing, and
  every location of the index, before and after \<open>bad\<close>, has been requested.
\<close>

theorem parseSitemap_failure_is_local:
  "(fetch_or_parse_fails w sitemapUrl \<longrightarrow>
      parseSitemap w sitemapUrl =
        Some (Inr \<lparr>subSitemaps = [], contentUrls = []\<rparr>,
              [ConsoleLog (Parsing sitemapUrl), GET sitemapUrl,
               ConsoleError (ErrorOccurred sitemapUrl
                 (if http_get w sitemapUrl = None then RequestFailed else XmlParseError))])) \<and>
   (serves_index w sitemapUrl locations \<and> bad \<in> set locations \<and> fetch_or_parse_fails w bad \<and>
    (\<forall>l \<in> set locations. l \<noteq> bad \<longrightarrow> parseSitemap w l = Some (Inr (nested l), evs l)) \<longrightarrow>
      (\<exists>all_evs. parseSitemap w sitemapUrl =
         Some (Inr \<lparr>subSitemaps =
                      locations @
                      concat (map (\<lambda>l. subSitemaps (nested l)) (filter (\<lambda>l. l \<noteq> bad) locations)),
                    contentUrls =
                      concat (map (\<lambda>l. contentUrls (nested l)) (filter (\<lambda>l. l \<noteq> bad) locations))\<rparr>,
               all_evs) \<and>
         (\<forall>l \<in> set locations. GET l \<in> set all_evs)))"
proof (intro conjI impI)
  assume "fetch_or_parse_fails w sitemapUrl"
  from fetch_or_parse_fails_walk [OF this]
  show "parseSitemap w sitemapUrl =
        Some (Inr \<lparr>subSitemaps = [], contentUrls = []\<rparr>,
              [ConsoleLog (Parsing sitemapUrl), GET sitemapUrl,
               ConsoleError (ErrorOccurred sitemapUrl
                 (if http_get w sitemapUrl = None then RequestFailed else XmlParseError))])"
    by (simp add: empty_result_def)
next
  assume a: "serves_index w sitemapUrl locations \<and> bad \<in> set locations \<and>
    fetch_or_parse_fails w bad \<and>
    (\<forall>l \<in> set locations. l \<noteq> bad \<longrightarrow> parseSitemap w l = Some (Inr (nested l), evs l))"
  define r where "r = nested(bad := empty_result)"
  define ev where "ev = evs(bad := [ConsoleLog (Parsing bad), GET bad,
     ConsoleError (ErrorOccurred bad (if http_get w bad = None then RequestFailed else XmlParseError))])"
  have all: "\<forall>l \<in> set locations. parseSitemap w l = Some (Inr (r l), ev l)"
    using a fetch_or_parse_fails_walk [of w bad] by (simp add: r_def ev_def)
  have subs: "concat (map (\<lambda>l. subSitemaps (r l)) locations) =
              concat (map (\<lambda>l. subSitemaps (nested l)) (filter (\<lambda>l. l \<noteq> bad) locations))"
    by (subst concat_map_except [where bad = bad])
       (auto simp: r_def empty_result_def intro!: arg_cong [where f = concat])
  have urls: "concat (map (\<lambda>l. contentUrls (r l)) locations) =
              concat (map (\<lambda>l. contentUrls (nested l)) (filter (\<lambda>l. l \<noteq> bad) locations))"
    by (subst concat_map_except [where bad = bad])
       (auto simp: r_def empty_result_def intro!: arg_cong [where f = concat])
  have walked: "\<forall>l \<in> set locations. GET l \<in> set (ev l)"
    using all walk_starts_with_GET by blast
  from a have "serves_index w sitemapUrl locations" by simp
  from serves_index_walk [OF this all]
  have "parseSitemap w sitemapUrl =
     Some (Inr \<lparr>subSitemaps =
                  locations @
                  concat (map (\<lambda>l. subSitemaps (nested l)) (filter (\<lambda>l. l \<noteq> bad) locations)),
                contentUrls =
                  concat (map (\<lambda>l. contentUrls (nested l)) (filter (\<lambda>l. l \<noteq> bad) locations))\<rparr>,
           [ConsoleLog (Parsing sitemapUrl), GET sitemapUrl] @ concat (map ev locations))"
    by (simp only: subs urls)
  moreover have "\<forall>l \<in> set locations.
      GET l \<in> set ([ConsoleLog (Parsing sitemapUrl), GET sitemapUrl] @ concat (map ev locations))"
    using walked by auto
  ultimately show "\<exists>all_evs. parseSitemap w sitemapUrl =
         Some (Inr \<lparr>subSitemaps =
                      locations @
                      concat (map (\<lambda>l. subSitemaps (nested l)) (filter (\<lambda>l. l \<noteq> bad) locations)),
                    contentUrls =
                      concat (map (\<lambda>l. contentUrls (nested l)) (filter (\<lambda>l. l \<noteq> bad) locations))\<rparr>,
               all_evs) \<and>
         (\<forall>l \<in> set locations. GET l \<in> set all_evs)"
    by blast
qed

theorem parseSitemap_failure_is_local_witness:
  "fetch_or_parse_fails broken_site ''https://example.com/gone.xml'' \<and>
   parseSitemap broken_site ''https://example.com/gone.xml'' =
     Some (Inr \<lparr>subSitemaps = [], contentUrls = []\<rparr>,
           [ConsoleLog (Parsing ''https://example.com/gone.xml''),
            GET ''https://example.com/gone.xml'',
            ConsoleError (ErrorOccurred ''https://example.com/gone.xml'' RequestFailed)]) \<and>
   (\<exists>all_evs.
      parseSitemap broken_site ''https://example.com/sitemap.xml'' =
        Some (Inr \<lparr>subSitemaps =
                     [''https://example.com/a.xml'', ''https://example.com/gone.xml'',
                      ''https://example.com/b.xml''],
                   contentUrls = [''https://example.com/1'', ''https://example.com/2'']\<rparr>,
              all_evs) \<and>
      GET ''https://example.com/b.xml'' \<in> set all_evs)"
proof -
  let ?nested = "\<lambda>l. if l = ''https://example.com/a.xml''
                     then \<lparr>subSitemaps = [], contentUrls = [''https://example.com/1'']\<rparr>
                     else \<lparr>subSitemaps = [], contentUrls = [''https://example.com/2'']\<rparr>"
  let ?evs = "\<lambda>l. [ConsoleLog (Parsing l), GET l]"
  let ?locations = "[''https://example.com/a.xml'', ''https://example.com/gone.xml'',
                     ''https://example.com/b.xml'']"
  have fails: "fetch_or_parse_fails broken_site ''https://example.com/gone.xml''"
    by (simp add: fetch_or_parse_fails_def broken_site_def site_def)
  have get: "http_get broken_site ''https://example.com/gone.xml'' = None"
    by (simp add: broken_site_def site_def)
  have index: "serves_index broken_site ''https://example.com/sitemap.xml'' ?locations"
    by (simp add: serves_index_def broken_site_def site_def sitemapindex_def)
  have a: "serves_urlset broken_site ''https://example.com/a.xml'' [''https://example.com/1'']"
    by (simp add: serves_urlset_def broken_site_def site_def urlset_def)
  have b: "serves_urlset broken_site ''https://example.com/b.xml'' [''https://example.com/2'']"
    by (simp add: serves_urlset_def broken_site_def site_def urlset_def)
  have others: "\<forall>l \<in> set ?locations. l \<noteq> ''https://example.com/gone.xml'' \<longrightarrow>
                  parseSitemap broken_site l = Some (Inr (?nested l), ?evs l)"
    using serves_urlset_walk [OF a] serves_urlset_walk [OF b] by simp
  have bad: "''https://example.com/gone.xml'' \<in> set ?locations"
    by simp
  note here = parseSitemap_failure_is_local
    [of broken_site "''https://example.com/gone.xml''" ?locations
        "''https://example.com/gone.xml''" ?nested ?evs]
  note above = parseSitemap_failure_is_local
    [of broken_site "''https://example.com/sitemap.xml''" ?locations
        "''https://example.com/gone.xml''" ?nested ?evs]
  from here fails get have first:
    "parseSitemap broken_site ''https://example.com/gone.xml'' =
       Some (Inr \<lparr>subSitemaps = [], contentUrls = []\<rparr>,
             [ConsoleLog (Parsing ''https://example.com/gone.xml''),
              GET ''https://example.com/gone.xml'',
              ConsoleError (ErrorOccurred ''https://example.com/gone.xml'' RequestFailed)])"
    by simp
  from above index bad fails others have second:
    "\<exists>all_evs.
      parseSitemap broken_site ''https://example.com/sitemap.xml'' =
        Some (Inr \<lparr>subSitemaps =
                     [''https://example.com/a.xml'', ''https://example.com/gone.xml'',
                      ''https://example.com/b.xml''],
                   contentUrls = [''https://example.com/1'', ''https://example.com/2'']\<rparr>,
              all_evs) \<and>
      GET ''https://example.com/b.xml'' \<in> set all_evs"
    by simp blast
  from fails first second show ?thesis by blast
qed

subsection \<open>C3: usage errors\<close>

text \<open>
  C3, as claimed: with an unrecognised mode flag the process stops before any request is
  sent. It does not: the flag is looked at only after the sitemap has been located and
  walked.
\<close>

theorem invalid_flag_exits_after_network_counterexample:
  "script posts_site [''node'', ''sitemap-scan.js'', ''example.com'', ''--all''] =
     Some (1,
           [ConsoleLog (Searching ''https://example.com''), HEAD ''https://example.com/sitemap.xml'',
            ConsoleLog (FoundMain ''https://example.com/sitemap.xml''),
            ConsoleLog (Parsing ''https://example.com/sitemap.xml''),
            GET ''https://example.com/sitemap.xml'',
            ConsoleLog (Parsing ''https://example.com/sitemap-posts.xml''),
            GET ''https://example.com/sitemap-posts.xml'',
            ConsoleError (InvalidArgument ''--all'')])"
  by (simp add: script_def cliMain_def cli_scan_def argv_at_def posts_site_located
        posts_site_walk)

text \<open>
  C3, amended. With the domain or the mode flag missing (or empty), the process prints the
  usage error and exits with status 1 at once: nothing else is printed and no request is
  sent. With both present and a flag other than \<^verbatim>\<open>--main\<close>, \<^verbatim>\<open>--subs\<close> and \<^verbatim>\<open>--urls\<close>, when
  a sitemap is found and its walk resolves, the process exits with status 1 after the
  existence checks and the \<^verbatim>\<open>GET\<close> requests of the walk, and the invalid-argument error is
  the last line it prints; when no sitemap is found, it exits with status 1 after the
  existence checks and without that error.
\<close>

theorem usage_errors:
  "(argv_at argv 2 = None \<or> argv_at argv 2 = Some [] \<or>
    argv_at argv 3 = None \<or> argv_at argv 3 = Some [] \<longrightarrow>
      script w argv = Some (1, [ConsoleError ProvideDomainAndArgument, ConsoleLog Usage])) \<and>
   (argv_at argv 2 = Some domain \<and> domain \<noteq> [] \<and>
    argv_at argv 3 = Some argument \<and> argument \<noteq> [] \<and>
    argument \<noteq> ''--main'' \<and> argument \<noteq> ''--subs'' \<and> argument \<noteq> ''--urls'' \<and>
    findMainSitemap w domain = (Inr (Some mainSitemapUrl), evs) \<and>
    parseSitemap w mainSitemapUrl = Some (Inr result, evs') \<longrightarrow>
      script w argv = Some (1, evs @ evs' @ [ConsoleError (InvalidArgument argument)]) \<and>
      HEAD mainSitemapUrl \<in> set evs \<and> GET mainSitemapUrl \<in> set evs') \<and>
   (argv_at argv 2 = Some domain \<and> domain \<noteq> [] \<and>
    argv_at argv 3 = Some argument \<and> argument \<noteq> [] \<and>
    findMainSitemap w domain = (Inr None, evs) \<longrightarrow>
      script w argv = Some (1, evs))"
proof (intro conjI impI)
  assume "argv_at argv 2 = None \<or> argv_at argv 2 = Some [] \<or>
    argv_at argv 3 = None \<or> argv_at argv 3 = Some []"
  then show "script w argv = Some (1, [ConsoleError ProvideDomainAndArgument, ConsoleLog Usage])"
    by (simp add: script_def usage_error_when_missing)
next
  assume a: "argv_at argv 2 = Some domain \<and> domain \<noteq> [] \<and>
    argv_at argv 3 = Some argument \<and> argument \<noteq> [] \<and>
    argument \<noteq> ''--main'' \<and> argument \<noteq> ''--subs'' \<and> argument \<noteq> ''--urls'' \<and>
    findMainSitemap w domain = (Inr (Some mainSitemapUrl), evs) \<and>
    parseSitemap w mainSitemapUrl = Some (Inr result, evs')"
  then have found: "findMainSitemap w domain = (Inr (Some mainSitemapUrl), evs)"
    and walked: "parseSitemap w mainSitemapUrl = Some (Inr result, evs')"
    by simp_all
  from findMainSitemap_found [OF found]
  have url: "mainSitemapUrl \<noteq> []" and head: "HEAD mainSitemapUrl \<in> set evs"
    by simp_all
  from a url show "script w argv =
      Some (1, evs @ evs' @ [ConsoleError (InvalidArgument argument)])"
    by (simp add: script_def cliMain_def cli_scan_def)
  from head show "HEAD mainSitemapUrl \<in> set evs" .
  from walk_starts_with_GET [OF walked] show "GET mainSitemapUrl \<in> set evs'" .
next
  assume "argv_at argv 2 = Some domain \<and> domain \<noteq> [] \<and>
    argv_at argv 3 = Some argument \<and> argument \<noteq> [] \<and>
    findMainSitemap w domain = (Inr None, evs)"
  then show "script w argv = Some (1, evs)"
    by (simp add: script_def cliMain_def cli_scan_def)
qed

theorem usage_errors_witness:
  "script posts_site [''node'', ''sitemap-scan.js'', ''example.com''] =
     Some (1, [ConsoleError ProvideDomainAndArgument, ConsoleLog Usage]) \<and>
   script posts_site [''node'', ''sitemap-scan.js'', ''example.com'', ''-urls''] =
     Some (1,
           [ConsoleLog (Searching ''https://example.com''), HEAD ''https://example.com/sitemap.xml'',
            ConsoleLog (FoundMain ''https://example.com/sitemap.xml'')] @
           [ConsoleLog (Parsing ''https://example.com/sitemap.xml''),
            GET ''https://example.com/sitemap.xml'',
            ConsoleLog (Parsing ''https://example.com/sitemap-posts.xml''),
            GET ''https://example.com/sitemap-posts.xml''] @
           [ConsoleError (InvalidArgument ''-urls'')]) \<and>
   script bare_site [''node'', ''sitemap-scan.js'', ''example.com'', ''-urls''] =
     Some (1,
           [ConsoleLog (Searching ''https://example.com''),
            HEAD ''https://example.com/sitemap.xml'', HEAD ''https://example.com/sitemap_index.xml'',
            HEAD ''https://example.com/wp-sitemap.xml'', HEAD ''https://example.com/sitemap-index.xml'',
            HEAD ''https://example.com/sitemap.xml.gz'', ConsoleLog (CouldNotFind ''example.com'')])"
proof -
  have missing: "argv_at [''node'', ''sitemap-scan.js'', ''example.com''] 3 = None"
    by (simp add: argv_at_def)
  have domain: "argv_at [''node'', ''sitemap-scan.js'', ''example.com'', ''-urls''] 2 =
                  Some ''example.com''"
    by (simp add: argv_at_def)
  have argument: "argv_at [''node'', ''sitemap-scan.js'', ''example.com'', ''-urls''] 3 =
                    Some ''-urls''"
    by (simp add: argv_at_def)
  have bare: "findMainSitemap bare_site ''example.com'' =
     (Inr None,
      [ConsoleLog (Searching ''https://example.com''),
       HEAD ''https://example.com/sitemap.xml'', HEAD ''https://example.com/sitemap_index.xml'',
       HEAD ''https://example.com/wp-sitemap.xml'', HEAD ''https://example.com/sitemap-index.xml'',
       HEAD ''https://example.com/sitemap.xml.gz'', ConsoleLog (CouldNotFind ''example.com'')])"
    by (simp add: findMainSitemap_def bare_site_def site_def baseUrl_def startsWith_def
          simple_origin_def sitemapPaths_def)
  from usage_errors [of "[''node'', ''sitemap-scan.js'', ''example.com'']" posts_site] missing
  have first: "script posts_site [''node'', ''sitemap-scan.js'', ''example.com''] =
     Some (1, [ConsoleError ProvideDomainAndArgument, ConsoleLog Usage])"
    by blast
  from usage_errors [of "[''node'', ''sitemap-scan.js'', ''example.com'', ''-urls'']" posts_site
      "''example.com''" "''-urls''" "''https://example.com/sitemap.xml''"]
    domain argument posts_site_located posts_site_walk
  have second: "script posts_site [''node'', ''sitemap-scan.js'', ''example.com'', ''-urls''] =
     Some (1,
           [ConsoleLog (Searching ''https://example.com''), HEAD ''https://example.com/sitemap.xml'',
            ConsoleLog (FoundMain ''https://example.com/sitemap.xml'')] @
           [ConsoleLog (Parsing ''https://example.com/sitemap.xml''),
            GET ''https://example.com/sitemap.xml'',
            ConsoleLog (Parsing ''https://example.com/sitemap-posts.xml''),
            GET ''https://example.com/sitemap-posts.xml''] @
           [ConsoleError (InvalidArgument ''-urls'')])"
    by simp
  from usage_errors [of "[''node'', ''sitemap-scan.js'', ''example.com'', ''-urls'']" bare_site
      "''example.com''" "''-urls''" _
      "[ConsoleLog (Searching ''https://example.com''),
       HEAD ''https://example.com/sitemap.xml'', HEAD ''https://example.com/sitemap_index.xml'',
       HEAD ''https://example.com/wp-sitemap.xml'', HEAD ''https://example.com/sitemap-index.xml'',
       HEAD ''https://example.com/sitemap.xml.gz'', ConsoleLog (CouldNotFind ''example.com'')]"]
    domain argument bare
  have third: "script bare_site [''node'', ''sitemap-scan.js'', ''example.com'', ''-urls''] =
     Some (1,
           [ConsoleLog (Searching ''https://example.com''),
            HEAD ''https://example.com/sitemap.xml'', HEAD ''https://example.com/sitemap_index.xml'',
            HEAD ''https://example.com/wp-sitemap.xml'', HEAD ''https://example.com/sitemap-index.xml'',
            HEAD ''https://example.com/sitemap.xml.gz'', ConsoleLog (CouldNotFind ''example.com'')])"
    by simp
  from first second third show ?thesis by blast
qed

subsection \<open>C4: order of the results\<close>

text \<open>
  C4. For an index that lists \<open>A\<close> and then \<open>B\<close>, where \<open>A\<close> is a \<^verbatim>\<open>urlset\<close> of two URLs and
  \<open>B\<close> a \<^verbatim>\<open>urlset\<close> of three, \<^verbatim>\<open>parseSitemap\<close> resolves with the sub-sitemaps \<open>[A, B]\<close> and
  the content URLs of \<open>A\<close> followed by those of \<open>B\<close>. In general, for an index whose nested
  walks resolve, the sub-sitemaps are the index's own locations in document order followed
  by the nested sub-sitemaps, location by location, and the content URLs are the nested
  content URLs, location by location.
\<close>

theorem parseSitemap_index_order:
  "(serves_index w sitemapUrl [A, B] \<and> serves_urlset w A [a1, a2] \<and>
    serves_urlset w B [b1, b2, b3] \<longrightarrow>
      parseSitemap w sitemapUrl =
        Some (Inr \<lparr>subSitemaps = [A, B], contentUrls = [a1, a2, b1, b2, b3]\<rparr>,
              [ConsoleLog (Parsing sitemapUrl), GET sitemapUrl,
               ConsoleLog (Parsing A), GET A, ConsoleLog (Parsing B), GET B])) \<and>
   (serves_index w sitemapUrl locations \<and>
    (\<forall>l \<in> set locations. parseSitemap w l = Some (Inr (nested l), evs l)) \<longrightarrow>
      parseSitemap w sitemapUrl =
        Some (Inr \<lparr>subSitemaps = locations @ concat (map (\<lambda>l. subSitemaps (nested l)) locations),
                   contentUrls = concat (map (\<lambda>l. contentUrls (nested l)) locations)\<rparr>,
              [ConsoleLog (Parsing sitemapUrl), GET sitemapUrl] @ concat (map evs locations)))"
proof (intro conjI impI)
  assume served: "serves_index w sitemapUrl [A, B] \<and> serves_urlset w A [a1, a2] \<and>
    serves_urlset w B [b1, b2, b3]"
  then have AB: "A \<noteq> B"
    by (auto simp: serves_urlset_def split: option.splits parsed.splits)
  let ?r = "\<lambda>l. if l = A then \<lparr>subSitemaps = [], contentUrls = [a1, a2]\<rparr>
                 else \<lparr>subSitemaps = [], contentUrls = [b1, b2, b3]\<rparr>"
  let ?ev = "\<lambda>l. [ConsoleLog (Parsing l), GET l]"
  have "\<forall>l \<in> set [A, B]. parseSitemap w l = Some (Inr (?r l), ?ev l)"
    using served AB by (simp add: serves_urlset_walk)
  from serves_index_walk [OF _ this] served AB
  show "parseSitemap w sitemapUrl =
        Some (Inr \<lparr>subSitemaps = [A, B], contentUrls = [a1, a2, b1, b2, b3]\<rparr>,
              [ConsoleLog (Parsing sitemapUrl), GET sitemapUrl,
               ConsoleLog (Parsing A), GET A, ConsoleLog (Parsing B), GET B])"
    by simp
next
  assume "serves_index w sitemapUrl locations \<and>
    (\<forall>l \<in> set locations. parseSitemap w l = Some (Inr (nested l), evs l))"
  then show "parseSitemap w sitemapUrl =
        Some (Inr \<lparr>subSitemaps = locations @ concat (map (\<lambda>l. subSitemaps (nested l)) locations),
                   contentUrls = concat (map (\<lambda>l. contentUrls (nested l)) locations)\<rparr>,
              [ConsoleLog (Parsing sitemapUrl), GET sitemapUrl] @ concat (map evs locations))"
    using serves_index_walk [of w sitemapUrl locations nested evs] by simp
qed

theorem parseSitemap_index_order_witness:
  "serves_index index_site ''https://example.com/sitemap.xml''
     [''https://example.com/a.xml'', ''https://example.com/b.xml''] \<and>
   serves_urlset index_site ''https://example.com/a.xml''
     [''https://example.com/1'', ''https://example.com/2''] \<and>
   parseSitemap index_site ''https://example.com/sitemap.xml'' =
     Some (Inr \<lparr>subSitemaps = [''https://example.com/a.xml'', ''https://example.com/b.xml''],
                contentUrls =
                  [''https://example.com/1'', ''https://example.com/2'', ''https://example.com/3'',
                   ''https://example.com/4'', ''https://example.com/5'']\<rparr>,
           [ConsoleLog (Parsing ''https://example.com/sitemap.xml''),
            GET ''https://example.com/sitemap.xml'',
            ConsoleLog (Parsing ''https://example.com/a.xml''), GET ''https://example.com/a.xml'',
            ConsoleLog (Parsing ''https://example.com/b.xml''), GET ''https://example.com/b.xml''])"
proof -
  have index: "serves_index index_site ''https://example.com/sitemap.xml''
     [''https://example.com/a.xml'', ''https://example.com/b.xml'']"
    by (simp add: serves_index_def index_site_def site_def sitemapindex_def)
  have a: "serves_urlset index_site ''https://example.com/a.xml''
     [''https://example.com/1'', ''https://example.com/2'']"
    by (simp add: serves_urlset_def index_site_def site_def urlset_def)
  have b: "serves_urlset index_site ''https://example.com/b.xml''
     [''https://example.com/3'', ''https://example.com/4'', ''https://example.com/5'']"
    by (simp add: serves_urlset_def index_site_def site_def urlset_def)
  from index a b
    parseSitemap_index_order [of index_site "''https://example.com/sitemap.xml''"
      "''https://example.com/a.xml''" "''https://example.com/b.xml''"
      "''https://example.com/1''" "''https://example.com/2''"
      "''https://example.com/3''" "''https://example.com/4''" "''https://example.com/5''"]
  show ?thesis by blast
qed

subsection \<open>C5: a urlset is reported as it stands\<close>

text \<open>
  C5. For a \<^verbatim>\<open>urlset\<close> document whose \<^verbatim>\<open>url\<close> entries carry the locations \<open>urls\<close>,
  \<^verbatim>\<open>parseSitemap\<close> resolves with exactly the list \<open>urls\<close> as content URLs, in document
  order and with every repetition kept, and with no sub-sitemaps.
\<close>

theorem parseSitemap_urlset_document:
  assumes "serves_urlset w sitemapUrl urls"
  shows "parseSitemap w sitemapUrl =
     Some (Inr \<lparr>subSitemaps = [], contentUrls = urls\<rparr>,
           [ConsoleLog (Parsing sitemapUrl), GET sitemapUrl])"
  using assms by (rule serves_urlset_walk)

theorem parseSitemap_urlset_document_witness:
  "serves_urlset leaf_site ''https://example.com/sitemap.xml''
     [''https://example.com/a'', ''https://example.com/b'', ''https://example.com/a''] \<and>
   parseSitemap leaf_site ''https://example.com/sitemap.xml'' =
     Some (Inr \<lparr>subSitemaps = [],
                contentUrls =
                  [''https://example.com/a'', ''https://example.com/b'', ''https://example.com/a'']\<rparr>,
           [ConsoleLog (Parsing ''https://example.com/sitemap.xml''),
            GET ''https://example.com/sitemap.xml''])"
proof -
  have served: "serves_urlset leaf_site ''https://example.com/sitemap.xml''
     [''https://example.com/a'', ''https://example.com/b'', ''https://example.com/a'']"
    by (simp add: serves_urlset_def leaf_site_def site_def urlset_def)
  from served parseSitemap_urlset_document [OF served] show ?thesis by simp
qed

subsection \<open>C6: no sitemap, no links\<close>

text \<open>
  C6. When the domain has an origin and every candidate path fails its existence check,
  \<^verbatim>\<open>findMainSitemap\<close> resolves with \<^verbatim>\<open>null\<close>, no \<^verbatim>\<open>GET\<close> request is sent, and
  \<^verbatim>\<open>getLinks\<close> resolves with the empty list. When a sitemap is found, \<^verbatim>\<open>getLinks\<close> returns
  exactly when the walk of that sitemap returns, and resolves with the content URLs of
  the walk and nothing else.
\<close>

theorem no_sitemap_no_links:
  "(url_origin w (baseUrl domain) = Some origin \<and>
    (\<forall>p \<in> set sitemapPaths. \<not> head_ok w (origin @ p)) \<longrightarrow>
      fst (findMainSitemap w domain) = Inr None \<and>
      get_requests (snd (findMainSitemap w domain)) = [] \<and>
      getLinks w domain = Some (Inr [], snd (findMainSitemap w domain))) \<and>
   (findMainSitemap w domain = (Inr (Some mainSitemapUrl), evs) \<longrightarrow>
      (parseSitemap w mainSitemapUrl = None \<longrightarrow> getLinks w domain = None) \<and>
      (\<forall>result evs'. parseSitemap w mainSitemapUrl = Some (Inr result, evs') \<longrightarrow>
         getLinks w domain = Some (Inr (contentUrls result), evs @ evs')))"
proof (intro conjI impI allI)
  assume a: "url_origin w (baseUrl domain) = Some origin \<and>
    (\<forall>p \<in> set sitemapPaths. \<not> head_ok w (origin @ p))"
  then have "probe w origin sitemapPaths = (None, map (\<lambda>p. HEAD (origin @ p)) sitemapPaths)"
    by (simp add: probe_none)
  with a have found: "findMainSitemap w domain =
      (Inr None, ConsoleLog (Searching origin) # map (\<lambda>p. HEAD (origin @ p)) sitemapPaths @
         [ConsoleLog (CouldNotFind domain)])"
    by (simp add: findMainSitemap_def)
  then show "fst (findMainSitemap w domain) = Inr None" by simp
  show "get_requests (snd (findMainSitemap w domain)) = []"
    by (rule findMainSitemap_no_get)
  from found show "getLinks w domain = Some (Inr [], snd (findMainSitemap w domain))"
    by (simp add: getLinks_def)
next
  assume found: "findMainSitemap w domain = (Inr (Some mainSitemapUrl), evs)"
  from findMainSitemap_found [OF this] have nonempty: "mainSitemapUrl \<noteq> []" by simp
  {
    assume "parseSitemap w mainSitemapUrl = None"
    with found nonempty show "getLinks w domain = None" by (simp add: getLinks_def)
  }
  {
    fix result evs'
    assume "parseSitemap w mainSitemapUrl = Some (Inr result, evs')"
    with found nonempty show "getLinks w domain = Some (Inr (contentUrls result), evs @ evs')"
      by (simp add: getLinks_def)
  }
qed

theorem no_sitemap_no_links_witness:
  "url_origin bare_site (baseUrl ''example.com'') = Some ''https://example.com'' \<and>
   findMainSitemap bare_site ''example.com'' =
     (Inr None,
      [ConsoleLog (Searching ''https://example.com''),
       HEAD ''https://example.com/sitemap.xml'', HEAD ''https://example.com/sitemap_index.xml'',
       HEAD ''https://example.com/wp-sitemap.xml'', HEAD ''https://example.com/sitemap-index.xml'',
       HEAD ''https://example.com/sitemap.xml.gz'', ConsoleLog (CouldNotFind ''example.com'')]) \<and>
   getLinks bare_site ''example.com'' =
     Some (Inr [], snd (findMainSitemap bare_site ''example.com'')) \<and>
   getLinks posts_site ''example.com'' =
     Some (Inr [''https://example.com/p1'', ''https://example.com/p2''],
           [ConsoleLog (Searching ''https://example.com''), HEAD ''https://example.com/sitemap.xml'',
            ConsoleLog (FoundMain ''https://example.com/sitemap.xml''),
            ConsoleLog (Parsing ''https://example.com/sitemap.xml''),
            GET ''https://example.com/sitemap.xml'',
            ConsoleLog (Parsing ''https://example.com/sitemap-posts.xml''),
            GET ''https://example.com/sitemap-posts.xml''])"
proof -
  have origin: "url_origin bare_site (baseUrl ''example.com'') = Some ''https://example.com''"
    by (simp add: bare_site_def site_def baseUrl_def startsWith_def simple_origin_def)
  have none: "\<forall>p \<in> set sitemapPaths. \<not> head_ok bare_site (''https://example.com'' @ p)"
    by (simp add: bare_site_def site_def)
  have eval: "findMainSitemap bare_site ''example.com'' =
     (Inr None,
      [ConsoleLog (Searching ''https://example.com''),
       HEAD ''https://example.com/sitemap.xml'', HEAD ''https://example.com/sitemap_index.xml'',
       HEAD ''https://example.com/wp-sitemap.xml'', HEAD ''https://example.com/sitemap-index.xml'',
       HEAD ''https://example.com/sitemap.xml.gz'', ConsoleLog (CouldNotFind ''example.com'')])"
    by (simp add: findMainSitemap_def bare_site_def site_def baseUrl_def startsWith_def
          simple_origin_def sitemapPaths_def)
  from no_sitemap_no_links [of bare_site "''example.com''" "''https://example.com''"] origin none
  have bare: "getLinks bare_site ''example.com'' =
     Some (Inr [], snd (findMainSitemap bare_site ''example.com''))"
    by simp
  from no_sitemap_no_links [of posts_site "''example.com''" _ "''https://example.com/sitemap.xml''"]
    posts_site_located posts_site_walk
  have posts: "getLinks posts_site ''example.com'' =
     Some (Inr [''https://example.com/p1'', ''https://example.com/p2''],
           [ConsoleLog (Searching ''https://example.com''), HEAD ''https://example.com/sitemap.xml'',
            ConsoleLog (FoundMain ''https://example.com/sitemap.xml''),
            ConsoleLog (Parsing ''https://example.com/sitemap.xml''),
            GET ''https://example.com/sitemap.xml'',
            ConsoleLog (Parsing ''https://example.com/sitemap-posts.xml''),
            GET ''https://example.com/sitemap-posts.xml''])"
    by simp
  from origin eval bare posts show ?thesis by blast
qed

subsection \<open>C7: the walk has no guard\<close>

text \<open>
  C7, as claimed: the walk is guarded and returns on every input, also on an index that
  refers to itself. It is not: on the index that lists itself the walk never returns.
\<close>

theorem self_reference_never_returns_counterexample:
  "serves_index self_site ''https://example.com/sitemap.xml'' [''https://example.com/sitemap.xml''] \<and>
   parseSitemap self_site ''https://example.com/sitemap.xml'' = None"
proof -
  have index: "serves_index self_site ''https://example.com/sitemap.xml''
                 [''https://example.com/sitemap.xml'']"
    by (simp add: serves_index_def self_site_def site_def sitemapindex_def)
  from serves_index_locations [OF index]
  have "\<forall>c \<in> {''https://example.com/sitemap.xml''}.
          \<exists>l \<in> set (sitemapLocations self_site c). l \<in> {''https://example.com/sitemap.xml''}"
    by simp
  from cycle_never_returns [OF _ this] index show ?thesis by simp
qed

text \<open>
  C7, amended. \<^verbatim>\<open>parseSitemap\<close> has no guard: it returns exactly on the URLs from which
  every chain of sitemap-index references ends, and never on a sitemap whose own
  locations include its URL.
\<close>

theorem parseSitemap_returns_iff_finite_tree:
  "((\<exists>y. parseSitemap w sitemapUrl = Some y) = finite_tree w sitemapUrl) \<and>
   (sitemapUrl \<in> set (sitemapLocations w sitemapUrl) \<longrightarrow> parseSitemap w sitemapUrl = None)"
proof
  show "(\<exists>y. parseSitemap w sitemapUrl = Some y) = finite_tree w sitemapUrl"
    by (rule returns_iff_finite_tree)
  show "sitemapUrl \<in> set (sitemapLocations w sitemapUrl) \<longrightarrow> parseSitemap w sitemapUrl = None"
  proof
    assume "sitemapUrl \<in> set (sitemapLocations w sitemapUrl)"
    then have "\<forall>c \<in> {sitemapUrl}. \<exists>l \<in> set (sitemapLocations w c). l \<in> {sitemapUrl}"
      by simp
    from cycle_never_returns [OF _ this] show "parseSitemap w sitemapUrl = None" by simp
  qed
qed

theorem parseSitemap_returns_iff_finite_tree_witness:
  "finite_tree posts_site ''https://example.com/sitemap.xml'' \<and>
   (\<exists>y. parseSitemap posts_site ''https://example.com/sitemap.xml'' = Some y) \<and>
   ''https://example.com/sitemap.xml'' \<in>
     set (sitemapLocations self_site ''https://example.com/sitemap.xml'') \<and>
   parseSitemap self_site ''https://example.com/sitemap.xml'' = None"
proof -
  have index: "serves_index self_site ''https://example.com/sitemap.xml''
                 [''https://example.com/sitemap.xml'']"
    by (simp add: serves_index_def self_site_def site_def sitemapindex_def)
  from serves_index_locations [OF index]
  have self: "''https://example.com/sitemap.xml'' \<in>
     set (sitemapLocations self_site ''https://example.com/sitemap.xml'')"
    by simp
  from parseSitemap_returns_iff_finite_tree [of posts_site "''https://example.com/sitemap.xml''"]
    posts_site_finite_tree
  have returns: "\<exists>y. parseSitemap posts_site ''https://example.com/sitemap.xml'' = Some y"
    by blast
  from parseSitemap_returns_iff_finite_tree [of self_site "''https://example.com/sitemap.xml''"] self
  have loops: "parseSitemap self_site ''https://example.com/sitemap.xml'' = None"
    by blast
  from posts_site_finite_tree returns self loops show ?thesis by blast
qed

subsection \<open>C8: a host name that begins with http\<close>

text \<open>
  C8. The claim asks that \<^verbatim>\<open>https://\<close> be put in front of every domain that does not begin
  with an HTTP(S) scheme. The source tests for the prefix \<^verbatim>\<open>http\<close> alone: the host name
  \<^verbatim>\<open>httpbin.org\<close> begins with no scheme, is left as it is, does not parse, and
  \<^verbatim>\<open>findMainSitemap\<close> rejects without a single existence check, although
  \<^verbatim>\<open>https://httpbin.org/sitemap.xml\<close> would have answered.
\<close>

theorem httpbin_is_not_prefixed:
  "\<not> startsWith ''httpbin.org'' ''http://'' \<and> \<not> startsWith ''httpbin.org'' ''https://'' \<and>
   baseUrl ''httpbin.org'' = ''httpbin.org'' \<and>
   url_origin httpbin_site ''httpbin.org'' = None \<and>
   url_origin httpbin_site (''https://'' @ ''httpbin.org'') = Some ''https://httpbin.org'' \<and>
   head_ok httpbin_site (''https://httpbin.org'' @ ''/sitemap.xml'') \<and>
   findMainSitemap httpbin_site ''httpbin.org'' = (Inl InvalidURL, [])"
  by (simp add: findMainSitemap_def httpbin_site_def site_def baseUrl_def startsWith_def
        simple_origin_def)

subsection \<open>C9: a string that is not a URL\<close>

text \<open>
  C9. When the string handed to the \<^verbatim>\<open>URL\<close> constructor does not parse, \<^verbatim>\<open>findMainSitemap\<close>
  rejects with the constructor's error before any request is sent, and so does
  \<^verbatim>\<open>getLinks\<close>. A domain that begins with the four characters \<^verbatim>\<open>http\<close> is handed to the
  constructor as it is, with no \<^verbatim>\<open>https://\<close> in front. The witness shows such strings.
\<close>

theorem invalid_url_escapes:
  "(url_origin w (baseUrl domain) = None \<longrightarrow>
      findMainSitemap w domain = (Inl InvalidURL, []) \<and>
      getLinks w domain = Some (Inl InvalidURL, [])) \<and>
   (startsWith domain ''http'' \<longrightarrow> baseUrl domain = domain)"
  by (simp add: findMainSitemap_def getLinks_def baseUrl_def)

theorem invalid_url_escapes_witness:
  "startsWith ''http//example.com'' ''http'' \<and>
   url_origin bare_site ''http//example.com'' = None \<and>
   findMainSitemap bare_site ''http//example.com'' = (Inl InvalidURL, []) \<and>
   getLinks bare_site ''http//example.com'' = Some (Inl InvalidURL, []) \<and>
   url_origin bare_site (baseUrl ''exam ple.com'') = None \<and>
   findMainSitemap bare_site ''exam ple.com'' = (Inl InvalidURL, []) \<and>
   getLinks bare_site ''exam ple.com'' = Some (Inl InvalidURL, [])"
proof -
  have prefix: "startsWith ''http//example.com'' ''http''"
    by (simp add: startsWith_def)
  have invalid: "url_origin bare_site ''http//example.com'' = None"
    by (simp add: bare_site_def site_def simple_origin_def startsWith_def)
  have invalid': "url_origin bare_site (baseUrl ''exam ple.com'') = None"
    by (simp add: bare_site_def site_def simple_origin_def startsWith_def baseUrl_def)
  from invalid_url_escapes [of bare_site "''http//example.com''"] prefix invalid
  have first: "findMainSitemap bare_site ''http//example.com'' = (Inl InvalidURL, []) \<and>
               getLinks bare_site ''http//example.com'' = Some (Inl InvalidURL, [])"
    by simp
  from invalid_url_escapes [of bare_site "''exam ple.com''"] invalid'
  have second: "findMainSitemap bare_site ''exam ple.com'' = (Inl InvalidURL, []) \<and>
                getLinks bare_site ''exam ple.com'' = Some (Inl InvalidURL, [])"
    by simp
  from prefix invalid invalid' first second show ?thesis by blast
qed

subsection \<open>C10: the walk never rejects\<close>

text \<open>
  C10, as claimed: for every URL and every outcome of the requests \<^verbatim>\<open>parseSitemap\<close>
  resolves. It does not on two indexes that list each other: the promise never settles.
\<close>

theorem mutual_reference_never_resolves_counterexample:
  "http_get cycle_site ''https://example.com/sitemap.xml'' = Some ''first'' \<and>
   xml_parse cycle_site ''first'' = Some (sitemapindex [''https://example.com/sitemap2.xml'']) \<and>
   \<not> (\<exists>result evs. parseSitemap cycle_site ''https://example.com/sitemap.xml'' =
                      Some (Inr result, evs))"
proof -
  have first: "serves_index cycle_site ''https://example.com/sitemap.xml''
                 [''https://example.com/sitemap2.xml'']"
    by (simp add: serves_index_def cycle_site_def site_def sitemapindex_def)
  have second: "serves_index cycle_site ''https://example.com/sitemap2.xml''
                 [''https://example.com/sitemap.xml'']"
    by (simp add: serves_index_def cycle_site_def site_def sitemapindex_def)
  from serves_index_locations [OF first] serves_index_locations [OF second]
  have "\<forall>c \<in> {''https://example.com/sitemap.xml'', ''https://example.com/sitemap2.xml''}.
          \<exists>l \<in> set (sitemapLocations cycle_site c).
            l \<in> {''https://example.com/sitemap.xml'', ''https://example.com/sitemap2.xml''}"
    by simp
  from cycle_never_returns [OF _ this]
  have "parseSitemap cycle_site ''https://example.com/sitemap.xml'' = None" by simp
  then show ?thesis by (simp add: cycle_site_def site_def)
qed

text \<open>
  C10, amended. \<^verbatim>\<open>parseSitemap\<close> never rejects. It resolves with its two lists whenever
  every chain of references from the URL ends, and in particular whenever the walk does
  not descend: after a failed request, a body that does not parse, a \<^verbatim>\<open>null\<close> result, a
  document of another shape, or an entry without \<^verbatim>\<open>loc\<close>. A document that is neither a
  \<^verbatim>\<open>sitemapindex\<close> with \<^verbatim>\<open>sitemap\<close> entries nor a \<^verbatim>\<open>urlset\<close> with \<^verbatim>\<open>url\<close> entries gives
  two empty lists and no diagnostic.
\<close>

theorem parseSitemap_never_rejects_and_resolves:
  "(\<forall>err evs. parseSitemap w sitemapUrl \<noteq> Some (Inl err, evs)) \<and>
   (finite_tree w sitemapUrl \<longrightarrow>
      (\<exists>result evs. parseSitemap w sitemapUrl = Some (Inr result, evs))) \<and>
   (sitemapLocations w sitemapUrl = [] \<longrightarrow>
      (\<exists>result evs. parseSitemap w sitemapUrl = Some (Inr result, evs))) \<and>
   (http_get w sitemapUrl = Some body \<and> xml_parse w body = Some (Root name children) \<and>
    array_under name children ''sitemapindex'' ''sitemap'' = None \<and>
    array_under name children ''urlset'' ''url'' = None \<longrightarrow>
      parseSitemap w sitemapUrl =
        Some (Inr \<lparr>subSitemaps = [], contentUrls = []\<rparr>,
              [ConsoleLog (Parsing sitemapUrl), GET sitemapUrl]))"
proof (intro conjI impI allI)
  fix err evs
  show "parseSitemap w sitemapUrl \<noteq> Some (Inl err, evs)"
    using walk_never_rejects [of w sitemapUrl "Inl err" evs] by auto
next
  assume "finite_tree w sitemapUrl"
  then show "\<exists>result evs. parseSitemap w sitemapUrl = Some (Inr result, evs)"
    by (rule finite_tree_returns)
next
  assume "sitemapLocations w sitemapUrl = []"
  then have "finite_tree w sitemapUrl" by (rule no_locations_finite_tree)
  then show "\<exists>result evs. parseSitemap w sitemapUrl = Some (Inr result, evs)"
    by (rule finite_tree_returns)
next
  assume "http_get w sitemapUrl = Some body \<and> xml_parse w body = Some (Root name children) \<and>
    array_under name children ''sitemapindex'' ''sitemap'' = None \<and>
    array_under name children ''urlset'' ''url'' = None"
  then show "parseSitemap w sitemapUrl =
        Some (Inr \<lparr>subSitemaps = [], contentUrls = []\<rparr>,
              [ConsoleLog (Parsing sitemapUrl), GET sitemapUrl])"
    using walk_other [of w sitemapUrl body name children]
    by (simp add: empty_result_def)
qed

theorem parseSitemap_never_rejects_and_resolves_witness:
  "finite_tree posts_site ''https://example.com/sitemap.xml'' \<and>
   (\<exists>result evs. parseSitemap posts_site ''https://example.com/sitemap.xml'' =
                   Some (Inr result, evs)) \<and>
   sitemapLocations odd_site ''https://example.com/feed.xml'' = [] \<and>
   (\<exists>result evs. parseSitemap odd_site ''https://example.com/feed.xml'' =
                   Some (Inr result, evs)) \<and>
   parseSitemap odd_site ''https://example.com/sitemap.xml'' =
     Some (Inr \<lparr>subSitemaps = [], contentUrls = []\<rparr>,
           [ConsoleLog (Parsing ''https://example.com/sitemap.xml''),
            GET ''https://example.com/sitemap.xml''])"
proof -
  have feed: "sitemapLocations odd_site ''https://example.com/feed.xml'' = []"
    by (simp add: sitemapLocations_def odd_site_def site_def array_under_def)
  have page: "http_get odd_site ''https://example.com/sitemap.xml'' = Some ''page'' \<and>
              xml_parse odd_site ''page'' = Some (Root ''html'' Map.empty) \<and>
              array_under ''html'' Map.empty ''sitemapindex'' ''sitemap'' = None \<and>
              array_under ''html'' Map.empty ''urlset'' ''url'' = None"
    by (simp add: odd_site_def site_def array_under_def)
  note tree = parseSitemap_never_rejects_and_resolves
    [of posts_site "''https://example.com/sitemap.xml''"]
  note flat = parseSitemap_never_rejects_and_resolves
    [of odd_site "''https://example.com/feed.xml''"]
  note other = parseSitemap_never_rejects_and_resolves
    [of odd_site "''https://example.com/sitemap.xml''" "''page''" "''html''" Map.empty]
  from tree posts_site_finite_tree
  have first: "\<exists>result evs. parseSitemap posts_site ''https://example.com/sitemap.xml'' =
                 Some (Inr result, evs)"
    by blast
  from flat feed
  have second: "\<exists>result evs. parseSitemap odd_site ''https://example.com/feed.xml'' =
                  Some (Inr result, evs)"
    by blast
  from other page
  have third: "parseSitemap odd_site ''https://example.com/sitemap.xml'' =
     Some (Inr \<lparr>subSitemaps = [], contentUrls = []\<rparr>,
           [ConsoleLog (Parsing ''https://example.com/sitemap.xml''),
            GET ''https://example.com/sitemap.xml''])"
    by blast
  from posts_site_finite_tree first feed second third show ?thesis by blast
qed

end
